theory Spec2Isabelle
  imports Main "HOL-Library.Word"
begin

section \<open>Bytes, Python integers and exceptions\<close>

text \<open>
  A Python \<open>bytes\<close>/\<open>bytearray\<close>/\<open>memoryview\<close> value is a list of 8-bit words; a Python
  \<open>int\<close> is an \<open>int\<close>. A raised exception is the \<open>Inl\<close> branch of a sum, tagged with
  the exception class that the source raises.
\<close>

type_synonym byte = "8 word"
type_synonym bytes = "byte list"

datatype error =
    ValueError
  | TypeError
  | AttributeError
  | KeyError
  | OverflowError
  | AssertionError
  | TimeoutError
  | ConnectionError
  | IndexError
  | RuntimeError

text \<open>
  Modelled from the spec: the module \<open>aioppspp/constants.py\<close> (the names \<open>BYTE\<close>,
  \<open>WORD\<close>, \<open>DWORD\<close>, \<open>QWORD\<close>) is not among the sources. The spec gives the widths:
  \<open>u8\<close>, \<open>u16\<close>, \<open>u32\<close> and \<open>u64\<close> fields, that is 1, 2, 4 and 8 bytes.
\<close>

definition BYTE :: nat where "BYTE = 1"
definition WORD :: nat where "WORD = 2"
definition DWORD :: nat where "DWORD = 4"
definition QWORD :: nat where "QWORD = 8"

text \<open>\<open>int.from_bytes(value, 'big')\<close>.\<close>

definition from_bytes :: "bytes \<Rightarrow> int" where
  "from_bytes bs = foldl (\<lambda>acc b. acc * 256 + uint b) 0 bs"

text \<open>
  \<open>n.to_bytes(length, 'big')\<close>: raises \<open>OverflowError\<close> for a negative \<open>n\<close> and for
  an \<open>n\<close> that does not fit into \<open>length\<close> bytes.
\<close>

fun big_endian :: "nat \<Rightarrow> int \<Rightarrow> bytes" where
  "big_endian 0 n = []"
| "big_endian (Suc k) n = big_endian k (n div 256) @ [word_of_int n]"

definition to_bytes :: "nat \<Rightarrow> int \<Rightarrow> error + bytes" where
  "to_bytes len n =
     (if n < 0 \<or> 256 ^ len \<le> n then Inl OverflowError else Inr (big_endian len n))"

section \<open>Message types\<close>

text \<open>\<open>messages/types.py\<close>: the \<open>IntEnum\<close> of the fourteen message types.\<close>

datatype MessageType =
    HANDSHAKE
  | DATA
  | ACK
  | HAVE
  | INTEGRITY
  | PEX_RESv4
  | PEX_REQ
  | SIGNED_INTEGRITY
  | REQUEST
  | CANCEL
  | CHOKE
  | UNCHOKE
  | PEX_RESv6
  | PEX_REScert

fun MessageType_value :: "MessageType \<Rightarrow> int" where
  "MessageType_value HANDSHAKE = 0"
| "MessageType_value DATA = 1"
| "MessageType_value ACK = 2"
| "MessageType_value HAVE = 3"
| "MessageType_value INTEGRITY = 4"
| "MessageType_value PEX_RESv4 = 5"
| "MessageType_value PEX_REQ = 6"
| "MessageType_value SIGNED_INTEGRITY = 7"
| "MessageType_value REQUEST = 8"
| "MessageType_value CANCEL = 9"
| "MessageType_value CHOKE = 10"
| "MessageType_value UNCHOKE = 11"
| "MessageType_value PEX_RESv6 = 12"
| "MessageType_value PEX_REScert = 13"

text \<open>\<open>list(MessageType)\<close>: the members in declaration order.\<close>

definition all_message_types :: "MessageType list" where
  "all_message_types =
     [HANDSHAKE, DATA, ACK, HAVE, INTEGRITY, PEX_RESv4, PEX_REQ, SIGNED_INTEGRITY,
      REQUEST, CANCEL, CHOKE, UNCHOKE, PEX_RESv6, PEX_REScert]"

text \<open>
  Calling an \<open>IntEnum\<close> class on a number, as in \<open>MessageType(n)\<close>: the first
  declared member with that value; \<open>ValueError\<close> when there is none.
\<close>

definition enum_call :: "('e \<Rightarrow> int) \<Rightarrow> 'e list \<Rightarrow> int \<Rightarrow> error + 'e" where
  "enum_call val members n =
     (case find (\<lambda>m. val m = n) members of
        None \<Rightarrow> Inl ValueError
      | Some m \<Rightarrow> Inr m)"

definition MessageType_call :: "int \<Rightarrow> error + MessageType" where
  "MessageType_call = enum_call MessageType_value all_message_types"

section \<open>Reading a slice\<close>

text \<open>
  \<open>decode_value(data, offset, length)\<close> of \<open>protocol_options.py\<close>: the slice
  \<open>data[offset:offset + length]\<close>, \<open>ValueError\<close> when it is shorter than \<open>length\<close>.
\<close>

definition decode_value :: "bytes \<Rightarrow> nat \<Rightarrow> nat \<Rightarrow> error + (bytes \<times> nat)" where
  "decode_value data offset len =
     (let v = take len (drop offset data)
      in if length v \<noteq> len then Inl ValueError else Inr (v, offset + len))"

section \<open>The supported-messages bitmap\<close>

text \<open>
  \<open>bin(value)[2:]\<close> mapped through \<open>int\<close>: the binary digits of \<open>value\<close>, most
  significant first, with no leading zero (and the single digit 0 for 0).
\<close>

fun bin_digits :: "nat \<Rightarrow> nat list" where
  "bin_digits n = (if n < 2 then [n] else bin_digits (n div 2) @ [n mod 2])"

declare bin_digits.simps [simp del]

text \<open>
  One round of the loop of \<open>decode_supported_messages\<close>, for the value \<open>v\<close> of the
  byte read: the message types of the \<open>n\<close>-th group of eight, zipped with the digits of
  \<open>v\<close>, those with a non-zero digit kept.
\<close>

definition byte_message_types :: "nat \<Rightarrow> int \<Rightarrow> MessageType set" where
  "byte_message_types n v =
     (let message_types = take 8 (drop (n * 8) all_message_types);
          mapping = zip (bin_digits (nat v)) message_types
      in set (map snd (filter (\<lambda>(bit, msgtype). bit \<noteq> 0) mapping)))"

fun supported_messages_loop ::
  "bytes \<Rightarrow> nat list \<Rightarrow> nat \<Rightarrow> MessageType set \<Rightarrow> error + (MessageType set \<times> nat)" where
  "supported_messages_loop data [] offset supported = Inr (supported, offset)"
| "supported_messages_loop data (n # ns) offset supported =
     (case decode_value data offset BYTE of
        Inl e \<Rightarrow> Inl e
      | Inr (v, offset') \<Rightarrow>
          supported_messages_loop data ns offset'
            (supported \<union> byte_message_types n (from_bytes v)))"

definition decode_supported_messages ::
  "bytes \<Rightarrow> nat \<Rightarrow> error + (MessageType set \<times> nat)" where
  "decode_supported_messages data offset =
     (case decode_value data offset BYTE of
        Inl e \<Rightarrow> Inl e
      | Inr (l, offset') \<Rightarrow>
          supported_messages_loop data [0 ..< nat (from_bytes l)] offset' {})"

text \<open>\<open>int(''.join(map(str, mask)), 2)\<close>: the number whose binary digits are the list's elements.\<close>

definition int_of_bits :: "nat list \<Rightarrow> int" where
  "int_of_bits bits = foldl (\<lambda>acc b. 2 * acc + int b) 0 bits"

definition encode_supported_messages :: "MessageType set \<Rightarrow> error + bytes" where
  "encode_supported_messages messages =
     (let mask0 = map (\<lambda>msgtype. if msgtype \<in> messages then 1 else 0) all_message_types;
          fits = (length mask0 mod 8 = 0);
          mask1 = mask0 @ replicate (if fits then 0 else 8 - length mask0 mod 8) 0
      in case to_bytes (length mask1 div 8) (int_of_bits mask1) of
           Inl e \<Rightarrow> Inl e
         | Inr supported_messages \<Rightarrow>
             (case to_bytes BYTE (int (length supported_messages)) of
                Inl e \<Rightarrow> Inl e
              | Inr supported_messages_length \<Rightarrow>
                  Inr (supported_messages_length @ supported_messages)))"

section \<open>Protocol options: the enumerations\<close>

text \<open>\<open>protocol_options.py\<close>, \<open>ProtocolOptionsId\<close>: the option codes.\<close>

datatype ProtocolOptionsId =
    Id_version
  | Id_minimum_version
  | Id_swarm_identifier
  | Id_content_integrity_protection_method
  | Id_merkle_hash_tree_function
  | Id_live_signature_algorithm
  | Id_chunk_addressing_method
  | Id_live_discard_window
  | Id_supported_messages
  | Id_chunk_size
  | Id_end_option

fun ProtocolOptionsId_value :: "ProtocolOptionsId \<Rightarrow> int" where
  "ProtocolOptionsId_value Id_version = 0"
| "ProtocolOptionsId_value Id_minimum_version = 1"
| "ProtocolOptionsId_value Id_swarm_identifier = 2"
| "ProtocolOptionsId_value Id_content_integrity_protection_method = 3"
| "ProtocolOptionsId_value Id_merkle_hash_tree_function = 4"
| "ProtocolOptionsId_value Id_live_signature_algorithm = 5"
| "ProtocolOptionsId_value Id_chunk_addressing_method = 6"
| "ProtocolOptionsId_value Id_live_discard_window = 7"
| "ProtocolOptionsId_value Id_supported_messages = 8"
| "ProtocolOptionsId_value Id_chunk_size = 9"
| "ProtocolOptionsId_value Id_end_option = 255"

definition all_option_ids :: "ProtocolOptionsId list" where
  "all_option_ids =
     [Id_version, Id_minimum_version, Id_swarm_identifier,
      Id_content_integrity_protection_method, Id_merkle_hash_tree_function,
      Id_live_signature_algorithm, Id_chunk_addressing_method, Id_live_discard_window,
      Id_supported_messages, Id_chunk_size, Id_end_option]"

definition ProtocolOptionsId_call :: "int \<Rightarrow> error + ProtocolOptionsId" where
  "ProtocolOptionsId_call = enum_call ProtocolOptionsId_value all_option_ids"

datatype Version = rfc7574

fun Version_value :: "Version \<Rightarrow> int" where
  "Version_value rfc7574 = 1"

definition Version_call :: "int \<Rightarrow> error + Version" where
  "Version_call = enum_call Version_value [rfc7574]"

datatype ContentIntegrityProtectionMethod =
    no_protection
  | merkle_hash_tree
  | sign_all
  | unified_merkle_tree

type_synonym CIPM = ContentIntegrityProtectionMethod

fun CIPM_value :: "CIPM \<Rightarrow> int" where
  "CIPM_value no_protection = 0"
| "CIPM_value merkle_hash_tree = 1"
| "CIPM_value sign_all = 2"
| "CIPM_value unified_merkle_tree = 3"

definition CIPM_call :: "int \<Rightarrow> error + CIPM" where
  "CIPM_call =
     enum_call CIPM_value [no_protection, merkle_hash_tree, sign_all, unified_merkle_tree]"

datatype MerkleHashTreeFunction = sha1 | sha224 | sha256 | sha384 | sha512

type_synonym MHTF = MerkleHashTreeFunction

fun MHTF_value :: "MHTF \<Rightarrow> int" where
  "MHTF_value sha1 = 0"
| "MHTF_value sha224 = 1"
| "MHTF_value sha256 = 2"
| "MHTF_value sha384 = 3"
| "MHTF_value sha512 = 4"

definition MHTF_call :: "int \<Rightarrow> error + MHTF" where
  "MHTF_call = enum_call MHTF_value [sha1, sha224, sha256, sha384, sha512]"

text \<open>
  \<open>LiveSignatureAlgorithm\<close> declares \<open>ecdsap256sha256 = 13\<close> and then
  \<open>ecdsap384sha384 = 13\<close>: in a Python enumeration the second name is an alias of the
  first member, not a member of its own.
\<close>

datatype LiveSignatureAlgorithm =
    rsamd5
  | dh
  | dsa
  | rsasha1
  | dsa_nsec3_sha1
  | rsasha1_nsec3_sha1
  | rsasha256
  | rsasha512
  | ecc_gost
  | ecdsap256sha256
  | privatedns
  | privateoid

type_synonym LSA = LiveSignatureAlgorithm

abbreviation (input) ecdsap384sha384 :: LSA where
  "ecdsap384sha384 \<equiv> ecdsap256sha256"

fun LSA_value :: "LSA \<Rightarrow> int" where
  "LSA_value rsamd5 = 1"
| "LSA_value dh = 2"
| "LSA_value dsa = 3"
| "LSA_value rsasha1 = 5"
| "LSA_value dsa_nsec3_sha1 = 6"
| "LSA_value rsasha1_nsec3_sha1 = 7"
| "LSA_value rsasha256 = 8"
| "LSA_value rsasha512 = 10"
| "LSA_value ecc_gost = 12"
| "LSA_value ecdsap256sha256 = 13"
| "LSA_value privatedns = 253"
| "LSA_value privateoid = 254"

definition LSA_call :: "int \<Rightarrow> error + LSA" where
  "LSA_call =
     enum_call LSA_value
       [rsamd5, dh, dsa, rsasha1, dsa_nsec3_sha1, rsasha1_nsec3_sha1, rsasha256,
        rsasha512, ecc_gost, ecdsap256sha256, privatedns, privateoid]"

datatype ChunkAddressingMethod = bins32 | bytes64 | chunks32 | bins64 | chunks64

type_synonym CAM = ChunkAddressingMethod

fun CAM_value :: "CAM \<Rightarrow> int" where
  "CAM_value bins32 = 0"
| "CAM_value bytes64 = 1"
| "CAM_value chunks32 = 2"
| "CAM_value bins64 = 3"
| "CAM_value chunks64 = 4"

definition CAM_call :: "int \<Rightarrow> error + CAM" where
  "CAM_call = enum_call CAM_value [bins32, bytes64, chunks32, bins64, chunks64]"

text \<open>\<open>LiveDiscardWindowSize[method.name].value\<close>: the window width for a method.\<close>

fun LiveDiscardWindowSize :: "CAM \<Rightarrow> nat" where
  "LiveDiscardWindowSize bins32 = DWORD"
| "LiveDiscardWindowSize bytes64 = QWORD"
| "LiveDiscardWindowSize chunks32 = DWORD"
| "LiveDiscardWindowSize bins64 = QWORD"
| "LiveDiscardWindowSize chunks64 = QWORD"

section \<open>Protocol options: the record and its constructor\<close>

text \<open>
  The namedtuple \<open>ProtocolOptions\<close> as its constructor leaves it: every field is
  \<open>None\<close> or a value of the annotated type. A Python \<open>set\<close> is seen through the
  message types it contains, which is all the encoder asks of it.
\<close>

record ProtocolOptions =
  version :: "Version option"
  minimum_version :: "Version option"
  swarm_identifier :: "bytes option"
  content_integrity_protection_method :: "CIPM option"
  merkle_hash_tree_function :: "MHTF option"
  live_signature_algorithm :: "LSA option"
  chunk_addressing_method :: "CAM option"
  live_discard_window :: "int option"
  supported_messages :: "MessageType set option"
  chunk_size :: "int option"

text \<open>
  What a caller can pass for a parameter annotated with the type \<open>T\<close>:
  \<^item> \<open>PyNone\<close>: \<open>None\<close>;
  \<^item> \<open>Instance v\<close>: an object for which \<open>isinstance(value, T)\<close> holds;
  \<^item> \<open>IntValue n\<close>: a plain \<open>int\<close> (or a member of another \<open>IntEnum\<close>) equal to \<open>n\<close>;
  \<^item> \<open>Other r\<close>: any other object, given by what the call \<open>T(value)\<close> does with it:
    \<open>Some v\<close> when it returns \<open>v\<close>, \<open>None\<close> when it raises.
\<close>

datatype 'a py_arg = PyNone | Instance 'a | IntValue int | Other "'a option"

text \<open>
  One round of the loop of \<open>ProtocolOptions.__new__\<close>, for each kind of annotation:
  \<open>None\<close> and instances are kept, anything else goes through \<open>typespec(value)\<close>, whose
  exception becomes a \<open>TypeError\<close>.
\<close>

fun check_enum :: "(int \<Rightarrow> error + 'e) \<Rightarrow> 'e py_arg \<Rightarrow> error + 'e option" where
  "check_enum typespec PyNone = Inr None"
| "check_enum typespec (Instance v) = Inr (Some v)"
| "check_enum typespec (IntValue n) =
     (case typespec n of Inl exc \<Rightarrow> Inl TypeError | Inr v \<Rightarrow> Inr (Some v))"
| "check_enum typespec (Other r) =
     (case r of None \<Rightarrow> Inl TypeError | Some v \<Rightarrow> Inr (Some v))"

text \<open>
  \<open>bytes(n)\<close> of an \<open>int\<close> is \<open>n\<close> zero bytes, and raises for a negative \<open>n\<close>
  (memory is taken to be unbounded).
\<close>

fun check_bytes :: "bytes py_arg \<Rightarrow> error + bytes option" where
  "check_bytes PyNone = Inr None"
| "check_bytes (Instance v) = Inr (Some v)"
| "check_bytes (IntValue n) =
     (if n < 0 then Inl TypeError else Inr (Some (replicate (nat n) 0)))"
| "check_bytes (Other r) =
     (case r of None \<Rightarrow> Inl TypeError | Some v \<Rightarrow> Inr (Some v))"

text \<open>An \<open>int\<close> is an instance of \<open>int\<close>.\<close>

fun check_int :: "int py_arg \<Rightarrow> error + int option" where
  "check_int PyNone = Inr None"
| "check_int (Instance v) = Inr (Some v)"
| "check_int (IntValue n) = Inr (Some n)"
| "check_int (Other r) =
     (case r of None \<Rightarrow> Inl TypeError | Some v \<Rightarrow> Inr (Some v))"

text \<open>\<open>set(n)\<close> of an \<open>int\<close> raises: an \<open>int\<close> is not iterable.\<close>

fun check_set :: "MessageType set py_arg \<Rightarrow> error + MessageType set option" where
  "check_set PyNone = Inr None"
| "check_set (Instance v) = Inr (Some v)"
| "check_set (IntValue n) = Inl TypeError"
| "check_set (Other r) =
     (case r of None \<Rightarrow> Inl TypeError | Some v \<Rightarrow> Inr (Some v))"

record ProtocolOptions_args =
  version_arg :: "Version py_arg"
  minimum_version_arg :: "Version py_arg"
  swarm_identifier_arg :: "bytes py_arg"
  content_integrity_protection_method_arg :: "CIPM py_arg"
  merkle_hash_tree_function_arg :: "MHTF py_arg"
  live_signature_algorithm_arg :: "LSA py_arg"
  chunk_addressing_method_arg :: "CAM py_arg"
  live_discard_window_arg :: "int py_arg"
  supported_messages_arg :: "MessageType set py_arg"
  chunk_size_arg :: "int py_arg"

definition bind_err :: "error + 'a \<Rightarrow> ('a \<Rightarrow> error + 'b) \<Rightarrow> error + 'b" where
  "bind_err r f = (case r of Inl e \<Rightarrow> Inl e | Inr v \<Rightarrow> f v)"

definition ProtocolOptions_new :: "ProtocolOptions_args \<Rightarrow> error + ProtocolOptions" where
  "ProtocolOptions_new params =
     bind_err (check_enum Version_call (version_arg params)) (\<lambda>v0.
     bind_err (check_enum Version_call (minimum_version_arg params)) (\<lambda>v1.
     bind_err (check_bytes (swarm_identifier_arg params)) (\<lambda>v2.
     bind_err (check_enum CIPM_call (content_integrity_protection_method_arg params)) (\<lambda>v3.
     bind_err (check_enum MHTF_call (merkle_hash_tree_function_arg params)) (\<lambda>v4.
     bind_err (check_enum LSA_call (live_signature_algorithm_arg params)) (\<lambda>v5.
     bind_err (check_enum CAM_call (chunk_addressing_method_arg params)) (\<lambda>v6.
     bind_err (check_int (live_discard_window_arg params)) (\<lambda>v7.
     bind_err (check_set (supported_messages_arg params)) (\<lambda>v8.
     bind_err (check_int (chunk_size_arg params)) (\<lambda>v9.
       Inr \<lparr>version = v0, minimum_version = v1, swarm_identifier = v2,
            content_integrity_protection_method = v3, merkle_hash_tree_function = v4,
            live_signature_algorithm = v5, chunk_addressing_method = v6,
            live_discard_window = v7, supported_messages = v8,
            chunk_size = v9\<rparr>))))))))))"

text \<open>The keyword arguments \<open>**options\<close> that \<open>decode\<close> passes: its decoded values.\<close>

definition as_arg :: "'a option \<Rightarrow> 'a py_arg" where
  "as_arg x = (case x of None \<Rightarrow> PyNone | Some v \<Rightarrow> Instance v)"

definition as_args :: "ProtocolOptions \<Rightarrow> ProtocolOptions_args" where
  "as_args options =
     \<lparr>version_arg = as_arg (version options),
      minimum_version_arg = as_arg (minimum_version options),
      swarm_identifier_arg = as_arg (swarm_identifier options),
      content_integrity_protection_method_arg =
        as_arg (content_integrity_protection_method options),
      merkle_hash_tree_function_arg = as_arg (merkle_hash_tree_function options),
      live_signature_algorithm_arg = as_arg (live_signature_algorithm options),
      chunk_addressing_method_arg = as_arg (chunk_addressing_method options),
      live_discard_window_arg = as_arg (live_discard_window options),
      supported_messages_arg = as_arg (supported_messages options),
      chunk_size_arg = as_arg (chunk_size options)\<rparr>"

section \<open>Protocol options: the per-option handlers\<close>

definition decode_version :: "bytes \<Rightarrow> nat \<Rightarrow> error + (Version \<times> nat)" where
  "decode_version data offset =
     (case decode_value data offset BYTE of
        Inl e \<Rightarrow> Inl e
      | Inr (v, offset') \<Rightarrow>
          (case Version_call (uint (hd v)) of
             Inl e \<Rightarrow> Inl e
           | Inr x \<Rightarrow> Inr (x, offset')))"

definition encode_version :: "Version \<Rightarrow> error + bytes" where
  "encode_version v = to_bytes BYTE (Version_value v)"

definition decode_minimum_version :: "bytes \<Rightarrow> nat \<Rightarrow> error + (Version \<times> nat)" where
  "decode_minimum_version data offset =
     (case decode_value data offset BYTE of
        Inl e \<Rightarrow> Inl e
      | Inr (v, offset') \<Rightarrow>
          (case Version_call (uint (hd v)) of
             Inl e \<Rightarrow> Inl e
           | Inr x \<Rightarrow> Inr (x, offset')))"

definition encode_minimum_version :: "Version \<Rightarrow> error + bytes" where
  "encode_minimum_version v = to_bytes BYTE (Version_value v)"

definition decode_swarm_id :: "bytes \<Rightarrow> nat \<Rightarrow> error + (bytes \<times> nat)" where
  "decode_swarm_id data offset =
     (case decode_value data offset WORD of
        Inl e \<Rightarrow> Inl e
      | Inr (swarm_id_length, offset') \<Rightarrow>
          decode_value data offset' (nat (from_bytes swarm_id_length)))"

definition encode_swarm_id :: "bytes \<Rightarrow> error + bytes" where
  "encode_swarm_id swarm_id =
     (case to_bytes WORD (int (length swarm_id)) of
        Inl e \<Rightarrow> Inl e
      | Inr swarm_id_length \<Rightarrow> Inr (swarm_id_length @ swarm_id))"

definition decode_content_integrity_protection_method ::
  "bytes \<Rightarrow> nat \<Rightarrow> error + (CIPM \<times> nat)" where
  "decode_content_integrity_protection_method data offset =
     (case decode_value data offset BYTE of
        Inl e \<Rightarrow> Inl e
      | Inr (v, offset') \<Rightarrow>
          (case CIPM_call (uint (hd v)) of
             Inl e \<Rightarrow> Inl e
           | Inr x \<Rightarrow> Inr (x, offset')))"

definition encode_content_integrity_protection_method :: "CIPM \<Rightarrow> error + bytes" where
  "encode_content_integrity_protection_method cipm = to_bytes BYTE (CIPM_value cipm)"

definition decode_merkle_hash_tree_function :: "bytes \<Rightarrow> nat \<Rightarrow> error + (MHTF \<times> nat)" where
  "decode_merkle_hash_tree_function data offset =
     (case decode_value data offset BYTE of
        Inl e \<Rightarrow> Inl e
      | Inr (v, offset') \<Rightarrow>
          (case MHTF_call (uint (hd v)) of
             Inl e \<Rightarrow> Inl e
           | Inr x \<Rightarrow> Inr (x, offset')))"

definition encode_merkle_hash_tree_function :: "MHTF \<Rightarrow> error + bytes" where
  "encode_merkle_hash_tree_function mhtf = to_bytes BYTE (MHTF_value mhtf)"

definition decode_live_signature_algorithm :: "bytes \<Rightarrow> nat \<Rightarrow> error + (LSA \<times> nat)" where
  "decode_live_signature_algorithm data offset =
     (case decode_value data offset BYTE of
        Inl e \<Rightarrow> Inl e
      | Inr (v, offset') \<Rightarrow>
          (case LSA_call (uint (hd v)) of
             Inl e \<Rightarrow> Inl e
           | Inr x \<Rightarrow> Inr (x, offset')))"

definition encode_live_signature_algorithm :: "LSA \<Rightarrow> error + bytes" where
  "encode_live_signature_algorithm lsa = to_bytes BYTE (LSA_value lsa)"

definition decode_chunk_addressing_method :: "bytes \<Rightarrow> nat \<Rightarrow> error + (CAM \<times> nat)" where
  "decode_chunk_addressing_method data offset =
     (case decode_value data offset BYTE of
        Inl e \<Rightarrow> Inl e
      | Inr (v, offset') \<Rightarrow>
          (case CAM_call (uint (hd v)) of
             Inl e \<Rightarrow> Inl e
           | Inr x \<Rightarrow> Inr (x, offset')))"

definition encode_chunk_addressing_method :: "CAM \<Rightarrow> error + bytes" where
  "encode_chunk_addressing_method cam = to_bytes BYTE (CAM_value cam)"

text \<open>
  \<open>decode_live_discard_window\<close> reads \<open>method.name\<close> of the method decoded so far;
  when none was decoded \<open>method\<close> is \<open>None\<close> and the attribute access raises
  \<open>AttributeError\<close>.
\<close>

definition decode_live_discard_window ::
  "bytes \<Rightarrow> nat \<Rightarrow> ProtocolOptions \<Rightarrow> error + (int \<times> nat)" where
  "decode_live_discard_window data offset options =
     (case chunk_addressing_method options of
        None \<Rightarrow> Inl AttributeError
      | Some method \<Rightarrow>
          (case decode_value data offset (LiveDiscardWindowSize method) of
             Inl e \<Rightarrow> Inl e
           | Inr (v, offset') \<Rightarrow> Inr (from_bytes v, offset')))"

text \<open>\<open>encode_live_discard_window\<close> returns \<open>None\<close> when the record has no method.\<close>

definition encode_live_discard_window ::
  "int \<Rightarrow> ProtocolOptions \<Rightarrow> error + bytes option" where
  "encode_live_discard_window ldw options =
     (case chunk_addressing_method options of
        None \<Rightarrow> Inr None
      | Some method \<Rightarrow>
          (case to_bytes (LiveDiscardWindowSize method) ldw of
             Inl e \<Rightarrow> Inl e
           | Inr v \<Rightarrow> Inr (Some v)))"

definition decode_chunk_size :: "bytes \<Rightarrow> nat \<Rightarrow> error + (int \<times> nat)" where
  "decode_chunk_size data offset =
     (case decode_value data offset DWORD of
        Inl e \<Rightarrow> Inl e
      | Inr (v, offset') \<Rightarrow> Inr (from_bytes v, offset'))"

definition encode_chunk_size :: "int \<Rightarrow> error + bytes" where
  "encode_chunk_size n = to_bytes DWORD n"

section \<open>Protocol options: encode\<close>

text \<open>
  The handler tables \<open>encode_handlers()\<close> and \<open>decode_handlers()\<close> have an entry for
  every option but \<open>end_option\<close>. The value a handler gets is the field of the record
  that \<open>zip(ProtocolOptionsId, options)\<close> pairs with the option, so the table lookup and
  the field access are one function here: \<open>None\<close> when the field is \<open>None\<close> (the loop
  goes on to the next option), the handler's result otherwise.
\<close>

definition returns_bytes :: "error + bytes \<Rightarrow> error + bytes option" where
  "returns_bytes r = (case r of Inl e \<Rightarrow> Inl e | Inr v \<Rightarrow> Inr (Some v))"

fun encode_handlers ::
  "ProtocolOptionsId \<Rightarrow> ProtocolOptions \<Rightarrow> (error + bytes option) option" where
  "encode_handlers Id_version options =
     map_option (\<lambda>v. returns_bytes (encode_version v)) (version options)"
| "encode_handlers Id_minimum_version options =
     map_option (\<lambda>v. returns_bytes (encode_minimum_version v)) (minimum_version options)"
| "encode_handlers Id_swarm_identifier options =
     map_option (\<lambda>v. returns_bytes (encode_swarm_id v)) (swarm_identifier options)"
| "encode_handlers Id_content_integrity_protection_method options =
     map_option (\<lambda>v. returns_bytes (encode_content_integrity_protection_method v))
       (content_integrity_protection_method options)"
| "encode_handlers Id_merkle_hash_tree_function options =
     map_option (\<lambda>v. returns_bytes (encode_merkle_hash_tree_function v))
       (merkle_hash_tree_function options)"
| "encode_handlers Id_live_signature_algorithm options =
     map_option (\<lambda>v. returns_bytes (encode_live_signature_algorithm v))
       (live_signature_algorithm options)"
| "encode_handlers Id_chunk_addressing_method options =
     map_option (\<lambda>v. returns_bytes (encode_chunk_addressing_method v))
       (chunk_addressing_method options)"
| "encode_handlers Id_live_discard_window options =
     map_option (\<lambda>v. encode_live_discard_window v options) (live_discard_window options)"
| "encode_handlers Id_supported_messages options =
     map_option (\<lambda>v. returns_bytes (encode_supported_messages v)) (supported_messages options)"
| "encode_handlers Id_chunk_size options =
     map_option (\<lambda>v. returns_bytes (encode_chunk_size v)) (chunk_size options)"
| "encode_handlers Id_end_option options = None"

text \<open>
  The loop of \<open>protocol_options.encode\<close> over the options still to visit; \<open>data\<close> is the bytearray
  built so far.
\<close>

fun encode_loop :: "ProtocolOptionsId list \<Rightarrow> ProtocolOptions \<Rightarrow> bytes \<Rightarrow> error + bytes" where
  "encode_loop [] options data = Inr data"
| "encode_loop (option_id # ids) options data =
     (case encode_handlers option_id options of
        None \<Rightarrow> encode_loop ids options data
      | Some (Inl e) \<Rightarrow> Inl e
      | Some (Inr None) \<Rightarrow> encode_loop ids options data
      | Some (Inr (Some v)) \<Rightarrow>
          encode_loop ids options
            (data @ [word_of_int (ProtocolOptionsId_value option_id)] @ v))"

text \<open>
  \<open>zip(ProtocolOptionsId, options)\<close> stops with the ten fields of the record, before
  \<open>end_option\<close>.
\<close>

definition zipped_option_ids :: "ProtocolOptionsId list" where
  "zipped_option_ids = take 10 all_option_ids"

definition protocol_options_encode :: "ProtocolOptions \<Rightarrow> error + bytes" where
  "protocol_options_encode options =
     (case encode_loop zipped_option_ids options [] of
        Inl e \<Rightarrow> Inl e
      | Inr data \<Rightarrow> Inr (data @ [word_of_int (ProtocolOptionsId_value Id_end_option)]))"

section \<open>Protocol options: decode\<close>

text \<open>\<open>options[option.name] is not None\<close>.\<close>

fun option_is_set :: "ProtocolOptionsId \<Rightarrow> ProtocolOptions \<Rightarrow> bool" where
  "option_is_set Id_version options = (version options \<noteq> None)"
| "option_is_set Id_minimum_version options = (minimum_version options \<noteq> None)"
| "option_is_set Id_swarm_identifier options = (swarm_identifier options \<noteq> None)"
| "option_is_set Id_content_integrity_protection_method options =
     (content_integrity_protection_method options \<noteq> None)"
| "option_is_set Id_merkle_hash_tree_function options =
     (merkle_hash_tree_function options \<noteq> None)"
| "option_is_set Id_live_signature_algorithm options =
     (live_signature_algorithm options \<noteq> None)"
| "option_is_set Id_chunk_addressing_method options =
     (chunk_addressing_method options \<noteq> None)"
| "option_is_set Id_live_discard_window options = (live_discard_window options \<noteq> None)"
| "option_is_set Id_supported_messages options = (supported_messages options \<noteq> None)"
| "option_is_set Id_chunk_size options = (chunk_size options \<noteq> None)"
| "option_is_set Id_end_option options = False"

text \<open>
  \<open>value, offset = handlers[option](data, offset, options)\<close> followed by
  \<open>options[option.name] = value\<close>.
\<close>

definition store :: "error + ('a \<times> nat) \<Rightarrow> ('a \<Rightarrow> ProtocolOptions) \<Rightarrow>
    error + (ProtocolOptions \<times> nat)" where
  "store r f = (case r of Inl e \<Rightarrow> Inl e | Inr (v, offset) \<Rightarrow> Inr (f v, offset))"

fun decode_handlers ::
  "ProtocolOptionsId \<Rightarrow> bytes \<Rightarrow> nat \<Rightarrow> ProtocolOptions \<Rightarrow>
    error + (ProtocolOptions \<times> nat)" where
  "decode_handlers Id_version data offset options =
     store (decode_version data offset) (\<lambda>v. options\<lparr>version := Some v\<rparr>)"
| "decode_handlers Id_minimum_version data offset options =
     store (decode_minimum_version data offset) (\<lambda>v. options\<lparr>minimum_version := Some v\<rparr>)"
| "decode_handlers Id_swarm_identifier data offset options =
     store (decode_swarm_id data offset) (\<lambda>v. options\<lparr>swarm_identifier := Some v\<rparr>)"
| "decode_handlers Id_content_integrity_protection_method data offset options =
     store (decode_content_integrity_protection_method data offset)
       (\<lambda>v. options\<lparr>content_integrity_protection_method := Some v\<rparr>)"
| "decode_handlers Id_merkle_hash_tree_function data offset options =
     store (decode_merkle_hash_tree_function data offset)
       (\<lambda>v. options\<lparr>merkle_hash_tree_function := Some v\<rparr>)"
| "decode_handlers Id_live_signature_algorithm data offset options =
     store (decode_live_signature_algorithm data offset)
       (\<lambda>v. options\<lparr>live_signature_algorithm := Some v\<rparr>)"
| "decode_handlers Id_chunk_addressing_method data offset options =
     store (decode_chunk_addressing_method data offset)
       (\<lambda>v. options\<lparr>chunk_addressing_method := Some v\<rparr>)"
| "decode_handlers Id_live_discard_window data offset options =
     store (decode_live_discard_window data offset options)
       (\<lambda>v. options\<lparr>live_discard_window := Some v\<rparr>)"
| "decode_handlers Id_supported_messages data offset options =
     store (decode_supported_messages data offset)
       (\<lambda>v. options\<lparr>supported_messages := Some v\<rparr>)"
| "decode_handlers Id_chunk_size data offset options =
     store (decode_chunk_size data offset) (\<lambda>v. options\<lparr>chunk_size := Some v\<rparr>)"
| "decode_handlers Id_end_option data offset options = Inl KeyError"

text \<open>The dictionary \<open>options\<close> that \<open>decode\<close> starts from: every name with \<open>None\<close>.\<close>

definition no_options :: ProtocolOptions where
  "no_options =
     \<lparr>version = None, minimum_version = None, swarm_identifier = None,
      content_integrity_protection_method = None, merkle_hash_tree_function = None,
      live_signature_algorithm = None, chunk_addressing_method = None,
      live_discard_window = None, supported_messages = None, chunk_size = None\<rparr>"

text \<open>
  Every handler leaves the offset where it was or moves it forward, and a read of at least
  one byte that succeeds stays inside the data: the loop of \<open>decode\<close> terminates.
\<close>

lemma decode_value_offset:
  "decode_value data offset len = Inr (v, offset') \<Longrightarrow>
     offset' = offset + len \<and> (0 < len \<longrightarrow> offset + len \<le> length data)"
  by (auto simp: decode_value_def Let_def split: if_splits)

lemma supported_messages_loop_offset:
  "supported_messages_loop data ns offset acc = Inr (s, offset') \<Longrightarrow> offset \<le> offset'"
  by (induction ns arbitrary: offset acc)
     (fastforce split: sum.splits dest!: decode_value_offset)+

lemma decode_handlers_offset:
  "decode_handlers i data offset options = Inr (options', offset') \<Longrightarrow> offset \<le> offset'"
  by (cases i)
     (auto simp: store_def decode_version_def decode_minimum_version_def decode_swarm_id_def
        decode_content_integrity_protection_method_def decode_merkle_hash_tree_function_def
        decode_live_signature_algorithm_def decode_chunk_addressing_method_def
        decode_live_discard_window_def decode_supported_messages_def decode_chunk_size_def
        split: sum.splits option.splits
        dest!: decode_value_offset supported_messages_loop_offset)

text \<open>The \<open>while True\<close> loop of \<open>protocol_options.decode\<close>.\<close>

function decode_loop ::
  "bytes \<Rightarrow> nat \<Rightarrow> ProtocolOptions \<Rightarrow> error + (ProtocolOptions \<times> nat)" where
  "decode_loop data offset options =
     (case decode_value data offset BYTE of
        Inl e \<Rightarrow> Inl e
      | Inr (option_id, offset') \<Rightarrow>
          (case ProtocolOptionsId_call (uint (hd option_id)) of
             Inl e \<Rightarrow> Inl e
           | Inr option \<Rightarrow>
               if option = Id_end_option then Inr (options, offset')
               else if option_is_set option options then Inl ValueError
               else (case decode_handlers option data offset' options of
                       Inl e \<Rightarrow> Inl e
                     | Inr (options', offset'') \<Rightarrow> decode_loop data offset'' options')))"
  by pat_completeness auto
termination
  apply (relation "measure (\<lambda>(data, offset, options). length data - offset)")
   apply simp
  apply (auto dest!: decode_value_offset decode_handlers_offset simp: BYTE_def)
  done

declare decode_loop.simps [simp del]

definition protocol_options_decode :: "bytes \<Rightarrow> error + (ProtocolOptions \<times> bytes)" where
  "protocol_options_decode data =
     (case decode_loop data 0 no_options of
        Inl e \<Rightarrow> Inl e
      | Inr (options, offset) \<Rightarrow>
          (case ProtocolOptions_new (as_args options) of
             Inl e \<Rightarrow> Inl e
           | Inr p \<Rightarrow> Inr (p, drop offset data)))"

section \<open>Channel identifiers, messages and datagrams\<close>

text \<open>\<open>channel_ids.py\<close>: a \<open>ChannelID\<close> is a \<open>bytes\<close> object of four bytes.\<close>

type_synonym ChannelID = bytes

definition ChannelID_new :: "bytes \<Rightarrow> error + ChannelID" where
  "ChannelID_new data = (if length data \<noteq> DWORD then Inl ValueError else Inr data)"

definition channel_ids_decode :: "bytes \<Rightarrow> error + (ChannelID \<times> bytes)" where
  "channel_ids_decode data =
     (let channel_id = take DWORD data; rest = drop DWORD data
      in case ChannelID_new channel_id of
           Inl e \<Rightarrow> Inl e
         | Inr c \<Rightarrow> Inr (c, rest))"

definition channel_ids_encode :: "ChannelID \<Rightarrow> error + bytes" where
  "channel_ids_encode channel_id = ChannelID_new channel_id"

text \<open>
  \<open>messages/__init__.py\<close>: a \<open>Message\<close> is an object with a \<open>type\<close>; what else a
  subclass holds is the type parameter. A handler table is a dictionary from message types
  to functions, an association list here.
\<close>

record 'a Message =
  msg_type :: MessageType
  msg_body :: 'a

type_synonym 'a decode_table = "(MessageType \<times> (bytes \<Rightarrow> error + ('a Message \<times> bytes))) list"
type_synonym 'a encode_table = "(MessageType \<times> ('a Message \<Rightarrow> error + bytes)) list"

definition decode_message_handlers :: "'a decode_table" where
  "decode_message_handlers = []"

definition encode_message_handlers :: "'a encode_table" where
  "encode_message_handlers = []"

text \<open>\<open>handlers or default\<close>: \<open>None\<close> and the empty dictionary are both false.\<close>

definition handlers_or :: "('k \<times> 'v) list option \<Rightarrow> ('k \<times> 'v) list \<Rightarrow> ('k \<times> 'v) list" where
  "handlers_or handlers dflt =
     (case handlers of None \<Rightarrow> dflt | Some t \<Rightarrow> if t = [] then dflt else t)"

definition decode_message ::
  "bytes \<Rightarrow> 'a decode_table option \<Rightarrow> error + ('a Message \<times> bytes)" where
  "decode_message data handlers =
     (let table = handlers_or handlers decode_message_handlers
      in case data of
           [] \<Rightarrow> Inl IndexError
         | b # _ \<Rightarrow>
             (case MessageType_call (uint b) of
                Inl e \<Rightarrow> Inl e
              | Inr t \<Rightarrow>
                  (case map_of table t of
                     None \<Rightarrow> Inl KeyError
                   | Some handler \<Rightarrow> handler (drop BYTE data))))"

text \<open>
  The loop \<open>while data:\<close> of \<open>messages.decode\<close>. A handler may return its input
  unchanged, so the loop need not end: the result is an \<open>option\<close>, \<open>None\<close> when the
  loop runs forever.
\<close>

partial_function (option) messages_decode_loop ::
  "'a decode_table option \<Rightarrow> bytes \<Rightarrow> 'a Message list \<Rightarrow> (error + 'a Message list) option" where
  "messages_decode_loop handlers data messages =
     (if data = [] then Some (Inr messages)
      else (case decode_message data handlers of
              Inl e \<Rightarrow> Some (Inl e)
            | Inr (message, data') \<Rightarrow>
                messages_decode_loop handlers data' (messages @ [message])))"

definition messages_decode ::
  "bytes \<Rightarrow> 'a decode_table option \<Rightarrow> (error + 'a Message list) option" where
  "messages_decode data handlers = messages_decode_loop handlers data []"

definition encode_message :: "'a Message \<Rightarrow> 'a encode_table option \<Rightarrow> error + bytes" where
  "encode_message message handlers =
     (let table = handlers_or handlers encode_message_handlers
      in case map_of table (msg_type message) of
           None \<Rightarrow> Inl KeyError
         | Some handler \<Rightarrow>
             (case handler message of
                Inl e \<Rightarrow> Inl e
              | Inr v \<Rightarrow> Inr (word_of_int (MessageType_value (msg_type message)) # v)))"

fun messages_encode_loop ::
  "'a Message list \<Rightarrow> 'a encode_table option \<Rightarrow> bytes \<Rightarrow> error + bytes" where
  "messages_encode_loop [] handlers data = Inr data"
| "messages_encode_loop (message # ms) handlers data =
     (case encode_message message handlers of
        Inl e \<Rightarrow> Inl e
      | Inr v \<Rightarrow> messages_encode_loop ms handlers (data @ v))"

definition messages_encode :: "'a Message list \<Rightarrow> 'a encode_table option \<Rightarrow> error + bytes" where
  "messages_encode messages handlers = messages_encode_loop messages handlers []"

text \<open>\<open>datagrams.py\<close>. Both functions call the message codec without \<open>handlers\<close>.\<close>

record 'a Datagram =
  channel_id :: ChannelID
  messages :: "'a Message list"

definition Datagram_new :: "bytes \<Rightarrow> 'a Message list \<Rightarrow> error + 'a Datagram" where
  "Datagram_new cid ms =
     (case ChannelID_new cid of
        Inl e \<Rightarrow> Inl e
      | Inr c \<Rightarrow> Inr \<lparr>channel_id = c, messages = ms\<rparr>)"

definition datagrams_decode :: "bytes \<Rightarrow> (error + 'a Datagram) option" where
  "datagrams_decode data =
     (case channel_ids_decode data of
        Inl e \<Rightarrow> Some (Inl e)
      | Inr (cid, rest) \<Rightarrow>
          (case messages_decode rest None of
             None \<Rightarrow> None
           | Some (Inl e) \<Rightarrow> Some (Inl e)
           | Some (Inr ms) \<Rightarrow> Some (Datagram_new cid ms)))"

definition datagrams_encode :: "'a Datagram \<Rightarrow> error + bytes" where
  "datagrams_encode datagram =
     (case channel_ids_encode (channel_id datagram) of
        Inl e \<Rightarrow> Inl e
      | Inr c \<Rightarrow>
          (case messages_encode (messages datagram) None of
             Inl e \<Rightarrow> Inl e
           | Inr m \<Rightarrow> Inr (c @ m)))"

section \<open>Connections and the connector\<close>

text \<open>
  \<open>connection.py\<close> and \<open>connector.py\<close>. Protocol objects (the endpoints) and
  connection objects are mutable and shared, so each is an address into a store: \<open>pid\<close>
  names a protocol, \<open>cid\<close> a connection. A key is an \<open>Address\<close>, an
  \<open>(ip, port)\<close> pair.
\<close>

type_synonym Address = "string \<times> nat"
type_synonym pid = nat
type_synonym cid = nat

text \<open>The fields \<open>_key\<close> and \<open>_protocol\<close> of a \<open>Connection\<close>.\<close>

record Connection =
  conn_key :: Address
  conn_protocol :: "pid option"

text \<open>
  The connector with the objects it reaches:
  \<^item> \<open>pool\<close>: the dictionary \<open>_pool\<close>, key to list of protocols, in insertion order;
    a pooled entry is whatever \<open>connection.protocol\<close> was at release, so it may be
    \<open>None\<close>;
  \<^item> \<open>acquired\<close>: the \<open>defaultdict(set)\<close> \<open>_acquired\<close>; a set of connections is a
    list, visited in list order;
  \<^item> \<open>closed\<close>: the flag \<open>_closed\<close>;
  \<^item> \<open>loop_closed\<close>: what \<open>self._loop.is_closed()\<close> returns;
  \<^item> \<open>transport\<close>: whether \<open>_transport\<close> of a protocol is set (not \<open>None\<close>);
  \<^item> \<open>connections\<close>: the connection objects; \<open>next_cid\<close>: the next unused address.
\<close>

record Connector =
  pool :: "(Address \<times> pid option list) list"
  acquired :: "(Address \<times> cid list) list"
  closed :: bool
  loop_closed :: bool
  transport :: "pid \<Rightarrow> bool"
  connections :: "cid \<Rightarrow> Connection"
  next_cid :: cid

text \<open>Dictionary operations on an association list with distinct keys.\<close>

fun dict_set :: "'k \<Rightarrow> 'v \<Rightarrow> ('k \<times> 'v) list \<Rightarrow> ('k \<times> 'v) list" where
  "dict_set k v [] = [(k, v)]"
| "dict_set k v ((k', v') # d) = (if k' = k then (k, v) # d else (k', v') # dict_set k v d)"

definition dict_del :: "'k \<Rightarrow> ('k \<times> 'v) list \<Rightarrow> ('k \<times> 'v) list" where
  "dict_del k d = filter (\<lambda>(k', v). k' \<noteq> k) d"

text \<open>\<open>BaseProtocol.closed\<close> and \<open>BaseProtocol.close\<close>, on a pooled entry or a connection's protocol.\<close>

definition Protocol_closed :: "Connector \<Rightarrow> pid \<Rightarrow> bool" where
  "Protocol_closed s p = (\<not> transport s p)"

text \<open>
  \<open>self._transport.close()\<close> raises \<open>AttributeError\<close> when \<open>_transport\<close> is \<open>None\<close>,
  and so does \<open>protocol.close()\<close> when \<open>protocol\<close> itself is \<open>None\<close>. A state
  paired with \<open>Some e\<close> is the state in which the exception \<open>e\<close> leaves the call.
\<close>

definition Protocol_close :: "Connector \<Rightarrow> pid option \<Rightarrow> Connector \<times> error option" where
  "Protocol_close s protocol =
     (case protocol of
        None \<Rightarrow> (s, Some AttributeError)
      | Some p \<Rightarrow>
          if transport s p then (s\<lparr>transport := (transport s)(p := False)\<rparr>, None)
          else (s, Some AttributeError))"

definition Connection_closed :: "Connector \<Rightarrow> cid \<Rightarrow> bool" where
  "Connection_closed s c =
     (case conn_protocol (connections s c) of
        None \<Rightarrow> True
      | Some p \<Rightarrow> Protocol_closed s p)"

text \<open>
  \<open>acquired = self._acquired[key]\<close> inserts an empty set for a key that is not there;
  \<open>acquired.remove(connection)\<close> follows, its \<open>KeyError\<close> swallowed.
\<close>

definition acquired_remove :: "Connector \<Rightarrow> Address \<Rightarrow> cid \<Rightarrow> Connector" where
  "acquired_remove s key c =
     (case map_of (acquired s) key of
        None \<Rightarrow> s\<lparr>acquired := acquired s @ [(key, [])]\<rparr>
      | Some cs \<Rightarrow> s\<lparr>acquired := dict_set key (removeAll c cs) (acquired s)\<rparr>)"

definition close_connection :: "Connector \<Rightarrow> cid \<Rightarrow> Connector \<times> error option" where
  "close_connection s c =
     (if closed s then (s, None)
      else let key = conn_key (connections s c);
               s' = acquired_remove s key c
           in Protocol_close s' (conn_protocol (connections s' c)))"

definition release_connection :: "Connector \<Rightarrow> cid \<Rightarrow> Connector \<times> error option" where
  "release_connection s c =
     (if closed s then (s, None)
      else let key = conn_key (connections s c);
               s' = acquired_remove s key c;
               protocols = (case map_of (pool s') key of None \<Rightarrow> [] | Some ps \<Rightarrow> ps)
           in (s'\<lparr>pool := dict_set key (protocols @ [conn_protocol (connections s' c)]) (pool s')\<rparr>,
               None))"

text \<open>\<open>self._protocol = None\<close>.\<close>

definition forget_protocol :: "Connector \<Rightarrow> cid \<Rightarrow> Connector" where
  "forget_protocol s c =
     s\<lparr>connections := (connections s)(c := (connections s c)\<lparr>conn_protocol := None\<rparr>)\<rparr>"

definition Connection_close :: "Connector \<Rightarrow> cid \<Rightarrow> Connector \<times> error option" where
  "Connection_close s c =
     (if Connection_closed s c then (s, None)
      else (case close_connection s c of
              (s', Some e) \<Rightarrow> (s', Some e)
            | (s', None) \<Rightarrow> (forget_protocol s' c, None)))"

definition Connection_release :: "Connector \<Rightarrow> cid \<Rightarrow> Connector \<times> error option" where
  "Connection_release s c =
     (if Connection_closed s c then (s, None)
      else (case release_connection s c of
              (s', Some e) \<Rightarrow> (s', Some e)
            | (s', None) \<Rightarrow> (forget_protocol s' c, None)))"

text \<open>The two loops of \<open>BaseConnector.close\<close>; the first exception ends a loop.\<close>

fun close_protocols :: "Connector \<Rightarrow> pid option list \<Rightarrow> Connector \<times> error option" where
  "close_protocols s [] = (s, None)"
| "close_protocols s (protocol # ps) =
     (case Protocol_close s protocol of
        (s', Some e) \<Rightarrow> (s', Some e)
      | (s', None) \<Rightarrow> close_protocols s' ps)"

fun close_connections :: "Connector \<Rightarrow> cid list \<Rightarrow> Connector \<times> error option" where
  "close_connections s [] = (s, None)"
| "close_connections s (c # cs) =
     (case Connection_close s c of
        (s', Some e) \<Rightarrow> (s', Some e)
      | (s', None) \<Rightarrow> close_connections s' cs)"

text \<open>
  \<open>map(list, self._acquired.values())\<close> is lazy: each set is copied when the iteration
  reaches it, and the dictionary iterator raises \<open>RuntimeError\<close> at its next step, the
  last one included, once the dictionary has changed size. \<open>n\<close> is the size at the
  start, the list the positions still to visit.
\<close>

fun close_acquired :: "Connector \<Rightarrow> nat \<Rightarrow> nat list \<Rightarrow> Connector \<times> error option" where
  "close_acquired s n [] =
     (if length (acquired s) \<noteq> n then (s, Some RuntimeError) else (s, None))"
| "close_acquired s n (i # is) =
     (if length (acquired s) \<noteq> n then (s, Some RuntimeError)
      else (case close_connections s (snd (acquired s ! i)) of
              (s', Some e) \<Rightarrow> (s', Some e)
            | (s', None) \<Rightarrow> close_acquired s' n is))"

text \<open>The \<open>try\<close> block of \<open>BaseConnector.close\<close>.\<close>

definition close_body :: "Connector \<Rightarrow> Connector \<times> error option" where
  "close_body s =
     (if loop_closed s then (s, None)
      else (case close_protocols s (concat (map snd (pool s))) of
              (s', Some e) \<Rightarrow> (s', Some e)
            | (s', None) \<Rightarrow> close_acquired s' (length (acquired s')) [0 ..< length (acquired s')]))"

text \<open>\<open>BaseConnector.close\<close>: the \<open>finally\<close> block runs however the body ends.\<close>

definition close :: "Connector \<Rightarrow> Connector \<times> error option" where
  "close s =
     (if closed s then (s, None)
      else (case close_body s of
              (s', r) \<Rightarrow> (s'\<lparr>pool := [], acquired := [], closed := True\<rparr>, r)))"

text \<open>\<open>_spawn_connection\<close>: a new \<open>Connection\<close> object.\<close>

definition spawn_connection :: "Connector \<Rightarrow> Address \<Rightarrow> pid option \<Rightarrow> Connector \<times> cid" where
  "spawn_connection s key protocol =
     (s\<lparr>connections := (connections s)(next_cid s := \<lparr>conn_key = key, conn_protocol = protocol\<rparr>),
        next_cid := Suc (next_cid s)\<rparr>,
      next_cid s)"

text \<open>
  \<open>_get_connection\<close>: the body of \<open>while protocols:\<close> returns in its first round, so
  the loop is a test. The result is \<open>None\<close> when the function falls off its end.
\<close>

definition get_connection :: "Connector \<Rightarrow> Address \<Rightarrow> Connector \<times> (error + cid option)" where
  "get_connection s key =
     (case map_of (pool s) key of
        Some (p # ps) \<Rightarrow>
          (let protocols = butlast (p # ps);
               s' = (if protocols = [] then s\<lparr>pool := dict_del key (pool s)\<rparr>
                     else s\<lparr>pool := dict_set key protocols (pool s)\<rparr>)
           in (case spawn_connection s' key (last (p # ps)) of
                 (s'', c) \<Rightarrow> (s'', Inr (Some c))))
      | Some [] \<Rightarrow> (s, Inl AssertionError)
      | None \<Rightarrow> (s, Inr None))"

text \<open>
  How awaiting \<open>create_endpoint\<close> ends: with a protocol, with
  \<open>asyncio.TimeoutError\<close> or with \<open>OSError\<close>. The subclass's \<open>create_endpoint\<close> is
  a parameter: it may change the state (it makes a protocol object).
\<close>

datatype endpoint = Endpoint pid | Timeout | OSError

definition add_acquired :: "Connector \<Rightarrow> Address \<Rightarrow> cid \<Rightarrow> Connector" where
  "add_acquired s key c =
     (case map_of (acquired s) key of
        None \<Rightarrow> s\<lparr>acquired := acquired s @ [(key, [c])]\<rparr>
      | Some cs \<Rightarrow>
          s\<lparr>acquired := dict_set key (if c \<in> set cs then cs else cs @ [c]) (acquired s)\<rparr>)"

definition connect_key ::
  "(Connector \<Rightarrow> Connector \<times> endpoint) \<Rightarrow> Connector \<Rightarrow> Address \<Rightarrow> Connector \<times> (error + cid)" where
  "connect_key create_endpoint s key =
     (case get_connection s key of
        (s1, Inl e) \<Rightarrow> (s1, Inl e)
      | (s1, Inr (Some c)) \<Rightarrow> (add_acquired s1 key c, Inr c)
      | (s1, Inr None) \<Rightarrow>
          (case create_endpoint s1 of
             (s2, Timeout) \<Rightarrow> (s2, Inl TimeoutError)
           | (s2, OSError) \<Rightarrow> (s2, Inl ConnectionError)
           | (s2, Endpoint protocol) \<Rightarrow>
               (case spawn_connection s2 key (Some protocol) of
                  (s3, c) \<Rightarrow> (add_acquired s3 key c, Inr c))))"

text \<open>
  \<open>connect\<close> and \<open>listen\<close> both call \<open>_connect\<close>, which is \<open>connect_key\<close> above
  (as \<open>get_connection\<close> and \<open>spawn_connection\<close> are \<open>_get_connection\<close> and
  \<open>_spawn_connection\<close>), with the address as the key.
\<close>

definition connect ::
  "(Connector \<Rightarrow> Connector \<times> endpoint) \<Rightarrow> Connector \<Rightarrow> Address \<Rightarrow> Connector \<times> (error + cid)" where
  "connect create_endpoint s remote_address = connect_key create_endpoint s remote_address"

definition listen ::
  "(Connector \<Rightarrow> Connector \<times> endpoint) \<Rightarrow> Connector \<Rightarrow> Address \<Rightarrow> Connector \<times> (error + cid)" where
  "listen create_endpoint s local_address = connect_key create_endpoint s local_address"

section \<open>Properties of the supported-messages bitmap\<close>

lemma int_of_bits_snoc: "int_of_bits (bits @ [b]) = 2 * int_of_bits bits + int b"
  by (simp add: int_of_bits_def)

lemma int_of_bits_bounds:
  "\<forall>b \<in> set bits. b \<le> 1 \<Longrightarrow> 0 \<le> int_of_bits bits \<and> int_of_bits bits < 2 ^ length bits"
proof (induction bits rule: rev_induct)
  case Nil
  then show ?case by (simp add: int_of_bits_def)
next
  case (snoc b bits)
  then have "0 \<le> int_of_bits bits" "int_of_bits bits < 2 ^ length bits" "b \<le> 1"
    by simp_all
  then show ?case
    by (simp add: int_of_bits_snoc)
qed

lemma length_big_endian: "length (big_endian k n) = k"
  by (induction k arbitrary: n) simp_all

lemma to_bytes_length: "to_bytes k n = Inr v \<Longrightarrow> length v = k"
  by (auto simp: to_bytes_def length_big_endian split: if_splits)

text \<open>
  Whatever the set, the encoder emits the length byte 2 and two bitmap bytes: the mask has
  one bit for each of the fourteen message types, padded to sixteen.
\<close>

lemma encode_supported_messages_shape:
  "\<exists>a b. encode_supported_messages S = Inr [2, a, b]"
proof -
  define bits where
    "bits = map (\<lambda>msgtype. if msgtype \<in> S then 1 else 0 :: nat) all_message_types @ replicate 2 0"
  have len: "length bits = 16"
    by (simp add: bits_def all_message_types_def)
  have "\<forall>b \<in> set bits. b \<le> 1"
    by (auto simp: bits_def)
  from int_of_bits_bounds [OF this] have b: "0 \<le> int_of_bits bits" "int_of_bits bits < 65536"
    by (simp_all add: len)
  have e: "encode_supported_messages S =
      (case to_bytes 2 (int_of_bits bits) of Inl e \<Rightarrow> Inl e
       | Inr sm \<Rightarrow> (case to_bytes BYTE (int (length sm)) of Inl e \<Rightarrow> Inl e | Inr l \<Rightarrow> Inr (l @ sm)))"
    by (simp add: encode_supported_messages_def bits_def all_message_types_def)
  have t: "to_bytes 2 (int_of_bits bits) =
      Inr [word_of_int (int_of_bits bits div 256), word_of_int (int_of_bits bits)]"
    using b by (simp add: to_bytes_def numeral_2_eq_2)
  have l: "to_bytes BYTE 2 = Inr [2]"
    by (simp add: to_bytes_def BYTE_def)
  show ?thesis
    by (simp add: e t l)
qed

text \<open>
  C2. The claim: for every subset \<open>S\<close> of the message types, decoding the bitmap that
  encodes \<open>S\<close> yields \<open>S\<close>. The code does not do this for \<open>S = {DATA}\<close>: the encoder
  emits \<open>02 40 00\<close>, and the decoder reads the byte \<open>0x40\<close> through \<open>bin\<close>, which
  drops the leading zero bit, so that the one bit left is zipped with the first message
  type of the group: the decoded set is \<open>{HANDSHAKE}\<close>.
\<close>

theorem supported_messages_roundtrip_fails_at_DATA:
  "encode_supported_messages {DATA} = Inr [0x02, 0x40, 0x00] \<and>
   decode_supported_messages [0x02, 0x40, 0x00] 0 = Inr ({HANDSHAKE}, 3)"
  by code_simp

text \<open>
  C3. The claim: the encoder removes the trailing all-zero bytes of the bitmap and the
  length byte is the trimmed length, so that \<open>{HANDSHAKE}\<close> is encoded as \<open>01 80\<close>. The
  code encodes \<open>{HANDSHAKE}\<close> as \<open>02 80 00\<close>, with the zero byte kept, and emits the
  length byte 2 and two bitmap bytes for every set.
\<close>

theorem encode_supported_messages_keeps_zero_bytes:
  "encode_supported_messages {HANDSHAKE} = Inr [0x02, 0x80, 0x00] \<and>
   encode_supported_messages {} = Inr [0x02, 0x00, 0x00] \<and>
   (\<exists>a b. encode_supported_messages S = Inr [0x02, a, b])"
proof -
  have "encode_supported_messages {HANDSHAKE} = Inr [0x02, 0x80, 0x00]"
    by code_simp
  moreover have "encode_supported_messages {} = Inr [0x02, 0x00, 0x00]"
    by code_simp
  ultimately show ?thesis
    using encode_supported_messages_shape [of S] by simp
qed

text \<open>
  C4. Decoding the payload \<open>02 D9 F0\<close> yields the set of HANDSHAKE, DATA, HAVE,
  INTEGRITY, SIGNED_INTEGRITY, REQUEST, CANCEL, CHOKE and UNCHOKE, which is every message
  type except ACK, PEX_REQ, PEX_RESv4, PEX_RESv6 and PEX_REScert, and encoding that set
  gives the bytes \<open>02 D9 F0\<close> back.
\<close>

theorem supported_messages_rfc_example:
  "decode_supported_messages [0x02, 0xD9, 0xF0] 0 =
     Inr ({HANDSHAKE, DATA, HAVE, INTEGRITY, SIGNED_INTEGRITY, REQUEST, CANCEL, CHOKE,
           UNCHOKE}, 3) \<and>
   {HANDSHAKE, DATA, HAVE, INTEGRITY, SIGNED_INTEGRITY, REQUEST, CANCEL, CHOKE, UNCHOKE} =
     set all_message_types - {ACK, PEX_REQ, PEX_RESv4, PEX_RESv6, PEX_REScert} \<and>
   encode_supported_messages
     {HANDSHAKE, DATA, HAVE, INTEGRITY, SIGNED_INTEGRITY, REQUEST, CANCEL, CHOKE, UNCHOKE} =
     Inr [0x02, 0xD9, 0xF0]"
proof -
  have "decode_supported_messages [0x02, 0xD9, 0xF0] 0 =
     Inr ({HANDSHAKE, DATA, HAVE, INTEGRITY, SIGNED_INTEGRITY, REQUEST, CANCEL, CHOKE,
           UNCHOKE}, 3)"
    by code_simp
  moreover have
    "{HANDSHAKE, DATA, HAVE, INTEGRITY, SIGNED_INTEGRITY, REQUEST, CANCEL, CHOKE, UNCHOKE} =
     set all_message_types - {ACK, PEX_REQ, PEX_RESv4, PEX_RESv6, PEX_REScert}"
    by (auto simp: all_message_types_def)
  moreover have "encode_supported_messages
     {HANDSHAKE, DATA, HAVE, INTEGRITY, SIGNED_INTEGRITY, REQUEST, CANCEL, CHOKE, UNCHOKE} =
     Inr [0x02, 0xD9, 0xF0]"
    by code_simp
  ultimately show ?thesis
    by simp
qed

section \<open>Properties of the protocol-options encoder\<close>

text \<open>
  The loop of the encoder sees the record only through what the handlers return, and a
  handler that returns \<open>None\<close> leaves the bytearray as a field that is \<open>None\<close> does.
\<close>

lemma encode_loop_cong:
  "\<forall>i \<in> set ids. encode_handlers i p = encode_handlers i q \<or>
      (encode_handlers i p = Some (Inr None) \<and> encode_handlers i q = None) \<Longrightarrow>
   encode_loop ids p data = encode_loop ids q data"
proof (induction ids arbitrary: data)
  case Nil
  show ?case by simp
next
  case (Cons i ids)
  then have rest: "\<And>d. encode_loop ids p d = encode_loop ids q d"
    by simp
  from Cons.prems have "encode_handlers i p = encode_handlers i q \<or>
      (encode_handlers i p = Some (Inr None) \<and> encode_handlers i q = None)"
    by simp
  then show ?case
    by (auto simp: rest split: option.splits sum.splits)
qed

text \<open>
  C6. For every record whose \<open>live_discard_window\<close> is set and whose
  \<open>chunk_addressing_method\<close> is not, the handler of option 7 returns \<open>None\<close>, the
  round of the loop for option 7 leaves the bytearray as it was (no code-7 option is
  emitted), and the encoding is the encoding of the record with \<open>live_discard_window\<close>
  cleared.
\<close>

theorem encode_omits_live_discard_window:
  assumes cam: "chunk_addressing_method p = None"
    and ldw: "live_discard_window p = Some w"
  shows "encode_handlers Id_live_discard_window p = Some (Inr None) \<and>
     encode_loop (Id_live_discard_window # ids) p data = encode_loop ids p data \<and>
     protocol_options_encode p = protocol_options_encode (p\<lparr>live_discard_window := None\<rparr>)"
proof -
  have h: "encode_handlers Id_live_discard_window p = Some (Inr None)"
    by (simp add: cam ldw encode_live_discard_window_def)
  have "\<forall>i \<in> set zipped_option_ids.
      encode_handlers i p = encode_handlers i (p\<lparr>live_discard_window := None\<rparr>) \<or>
      (encode_handlers i p = Some (Inr None) \<and>
       encode_handlers i (p\<lparr>live_discard_window := None\<rparr>) = None)"
    by (simp add: zipped_option_ids_def all_option_ids_def cam ldw
          encode_live_discard_window_def)
  then have "encode_loop zipped_option_ids p [] =
      encode_loop zipped_option_ids (p\<lparr>live_discard_window := None\<rparr>) []"
    by (rule encode_loop_cong)
  then show ?thesis
    by (simp add: protocol_options_encode_def h del: encode_handlers.simps)
qed

theorem encode_omits_live_discard_window_witness:
  "chunk_addressing_method (no_options\<lparr>live_discard_window := Some 42\<rparr>) = None \<and>
   live_discard_window (no_options\<lparr>live_discard_window := Some 42\<rparr>) = Some 42 \<and>
   protocol_options_encode (no_options\<lparr>live_discard_window := Some 42\<rparr>) = Inr [0xFF] \<and>
   protocol_options_encode no_options = Inr [0xFF]"
  using encode_omits_live_discard_window
    [of "no_options\<lparr>live_discard_window := Some 42\<rparr>" 42 "[]" "[]"]
  by (simp add: no_options_def protocol_options_encode_def zipped_option_ids_def
        all_option_ids_def)

section \<open>Properties of the constructor of the options record\<close>

text \<open>
  The vocabulary of the property. \<open>validated val arg field\<close>: the field holds what the
  argument stands for, that is \<open>None\<close> for \<open>None\<close>, the instance for an instance, and
  for a number the member whose value is that number. \<open>out_of_domain typespec arg\<close>: the
  argument is a number that is the value of no member.
\<close>

definition validated :: "('e \<Rightarrow> int) \<Rightarrow> 'e py_arg \<Rightarrow> 'e option \<Rightarrow> bool" where
  "validated val arg field =
     (case arg of
        PyNone \<Rightarrow> field = None
      | Instance v \<Rightarrow> field = Some v
      | IntValue n \<Rightarrow> (case field of None \<Rightarrow> False | Some v \<Rightarrow> val v = n)
      | Other r \<Rightarrow> r \<noteq> None \<and> field = r)"

definition out_of_domain :: "(int \<Rightarrow> error + 'e) \<Rightarrow> 'e py_arg \<Rightarrow> bool" where
  "out_of_domain typespec arg =
     (case arg of IntValue n \<Rightarrow> typespec n = Inl ValueError | _ \<Rightarrow> False)"

text \<open>
  The same for the three built-in annotations. For \<open>bytes\<close> a number \<open>n\<close> is stored as
  \<open>n\<close> zero bytes and must not be negative; for \<open>int\<close> a number is an instance and is
  stored as it is; for \<open>set\<close> no number is accepted.
\<close>

definition validated_bytes :: "bytes py_arg \<Rightarrow> bytes option \<Rightarrow> bool" where
  "validated_bytes arg field =
     (case arg of
        PyNone \<Rightarrow> field = None
      | Instance v \<Rightarrow> field = Some v
      | IntValue n \<Rightarrow> 0 \<le> n \<and> field = Some (replicate (nat n) 0)
      | Other r \<Rightarrow> r \<noteq> None \<and> field = r)"

definition validated_int :: "int py_arg \<Rightarrow> int option \<Rightarrow> bool" where
  "validated_int arg field =
     (case arg of
        PyNone \<Rightarrow> field = None
      | Instance v \<Rightarrow> field = Some v
      | IntValue n \<Rightarrow> field = Some n
      | Other r \<Rightarrow> r \<noteq> None \<and> field = r)"

definition validated_set :: "MessageType set py_arg \<Rightarrow> MessageType set option \<Rightarrow> bool" where
  "validated_set arg field =
     (case arg of
        PyNone \<Rightarrow> field = None
      | Instance v \<Rightarrow> field = Some v
      | IntValue n \<Rightarrow> False
      | Other r \<Rightarrow> r \<noteq> None \<and> field = r)"

definition no_args :: ProtocolOptions_args where
  "no_args = \<lparr>version_arg = PyNone, minimum_version_arg = PyNone, swarm_identifier_arg = PyNone,
     content_integrity_protection_method_arg = PyNone, merkle_hash_tree_function_arg = PyNone,
     live_signature_algorithm_arg = PyNone, chunk_addressing_method_arg = PyNone,
     live_discard_window_arg = PyNone, supported_messages_arg = PyNone, chunk_size_arg = PyNone\<rparr>"

lemma enum_call_value: "enum_call val ms n = Inr v \<Longrightarrow> val v = n"
  by (auto simp: enum_call_def split: option.splits dest: find_Some_iff[THEN iffD1])

lemma check_enum_validated:
  "check_enum (enum_call val ms) arg = Inr f \<Longrightarrow> validated val arg f"
  by (cases arg) (auto simp: validated_def split: sum.splits option.splits dest: enum_call_value)

lemma check_enum_error: "check_enum typespec arg = Inl e \<Longrightarrow> e = TypeError"
  by (cases arg) (auto split: sum.splits option.splits)

lemma check_enum_out_of_domain:
  "out_of_domain typespec arg \<Longrightarrow> check_enum typespec arg = Inl TypeError"
  by (cases arg) (auto simp: out_of_domain_def)

lemma check_bytes_error: "check_bytes arg = Inl e \<Longrightarrow> e = TypeError"
  by (cases arg) (auto split: if_splits option.splits)

lemma check_int_error: "check_int arg = Inl e \<Longrightarrow> e = TypeError"
  by (cases arg) (auto split: option.splits)

lemma check_set_error: "check_set arg = Inl e \<Longrightarrow> e = TypeError"
  by (cases arg) (auto split: option.splits)

lemma check_bytes_None: "check_bytes arg = Inr f \<Longrightarrow> arg = PyNone \<Longrightarrow> f = None"
  by auto
lemma check_int_None: "check_int arg = Inr f \<Longrightarrow> arg = PyNone \<Longrightarrow> f = None"
  by auto
lemma check_set_None: "check_set arg = Inr f \<Longrightarrow> arg = PyNone \<Longrightarrow> f = None"
  by auto

lemma new_error: "ProtocolOptions_new params = Inl e \<Longrightarrow> e = TypeError"
  by (auto simp: ProtocolOptions_new_def bind_err_def split: sum.splits
      dest: check_enum_error check_bytes_error check_int_error check_set_error)

lemma new_fields:
  assumes "ProtocolOptions_new params = Inr p"
  shows "check_enum Version_call (version_arg params) = Inr (version p)"
    "check_enum Version_call (minimum_version_arg params) = Inr (minimum_version p)"
    "check_bytes (swarm_identifier_arg params) = Inr (swarm_identifier p)"
    "check_enum CIPM_call (content_integrity_protection_method_arg params) = Inr (content_integrity_protection_method p)"
    "check_enum MHTF_call (merkle_hash_tree_function_arg params) = Inr (merkle_hash_tree_function p)"
    "check_enum LSA_call (live_signature_algorithm_arg params) = Inr (live_signature_algorithm p)"
    "check_enum CAM_call (chunk_addressing_method_arg params) = Inr (chunk_addressing_method p)"
    "check_int (live_discard_window_arg params) = Inr (live_discard_window p)"
    "check_set (supported_messages_arg params) = Inr (supported_messages p)"
    "check_int (chunk_size_arg params) = Inr (chunk_size p)"
  using assms
  by (auto simp: ProtocolOptions_new_def bind_err_def split: sum.splits)

lemma new_checks:
  "(case ProtocolOptions_new params of
      Inl e \<Rightarrow> e = TypeError
    | Inr p \<Rightarrow>
        validated Version_value (version_arg params) (version p) \<and>
        validated Version_value (minimum_version_arg params) (minimum_version p) \<and>
        validated CIPM_value (content_integrity_protection_method_arg params)
          (content_integrity_protection_method p) \<and>
        validated MHTF_value (merkle_hash_tree_function_arg params)
          (merkle_hash_tree_function p) \<and>
        validated LSA_value (live_signature_algorithm_arg params)
          (live_signature_algorithm p) \<and>
        validated CAM_value (chunk_addressing_method_arg params)
          (chunk_addressing_method p) \<and>
        (swarm_identifier_arg params = PyNone \<longrightarrow> swarm_identifier p = None) \<and>
        (live_discard_window_arg params = PyNone \<longrightarrow> live_discard_window p = None) \<and>
        (supported_messages_arg params = PyNone \<longrightarrow> supported_messages p = None) \<and>
        (chunk_size_arg params = PyNone \<longrightarrow> chunk_size p = None)) \<and>
   (out_of_domain Version_call (version_arg params) \<or>
    out_of_domain Version_call (minimum_version_arg params) \<or>
    out_of_domain CIPM_call (content_integrity_protection_method_arg params) \<or>
    out_of_domain MHTF_call (merkle_hash_tree_function_arg params) \<or>
    out_of_domain LSA_call (live_signature_algorithm_arg params) \<or>
    out_of_domain CAM_call (chunk_addressing_method_arg params) \<longrightarrow>
    ProtocolOptions_new params = Inl TypeError)"
proof (intro conjI impI)
  show "case ProtocolOptions_new params of
      Inl e \<Rightarrow> e = TypeError
    | Inr p \<Rightarrow>
        validated Version_value (version_arg params) (version p) \<and>
        validated Version_value (minimum_version_arg params) (minimum_version p) \<and>
        validated CIPM_value (content_integrity_protection_method_arg params)
          (content_integrity_protection_method p) \<and>
        validated MHTF_value (merkle_hash_tree_function_arg params)
          (merkle_hash_tree_function p) \<and>
        validated LSA_value (live_signature_algorithm_arg params)
          (live_signature_algorithm p) \<and>
        validated CAM_value (chunk_addressing_method_arg params)
          (chunk_addressing_method p) \<and>
        (swarm_identifier_arg params = PyNone \<longrightarrow> swarm_identifier p = None) \<and>
        (live_discard_window_arg params = PyNone \<longrightarrow> live_discard_window p = None) \<and>
        (supported_messages_arg params = PyNone \<longrightarrow> supported_messages p = None) \<and>
        (chunk_size_arg params = PyNone \<longrightarrow> chunk_size p = None)"
  proof (cases "ProtocolOptions_new params")
    case (Inl e)
    then show ?thesis by (simp add: new_error)
  next
    case (Inr p)
    note f = new_fields [OF Inr]
    show ?thesis
      using f(1,2,4,5,6,7) [unfolded Version_call_def CIPM_call_def MHTF_call_def LSA_call_def CAM_call_def, THEN check_enum_validated]
        check_bytes_None [OF f(3)] check_int_None [OF f(8)] check_set_None [OF f(9)] check_int_None [OF f(10)]
      by (simp add: Inr)
  qed
next
  assume o: "out_of_domain Version_call (version_arg params) \<or>
    out_of_domain Version_call (minimum_version_arg params) \<or>
    out_of_domain CIPM_call (content_integrity_protection_method_arg params) \<or>
    out_of_domain MHTF_call (merkle_hash_tree_function_arg params) \<or>
    out_of_domain LSA_call (live_signature_algorithm_arg params) \<or>
    out_of_domain CAM_call (chunk_addressing_method_arg params)"
  show "ProtocolOptions_new params = Inl TypeError"
  proof (cases "ProtocolOptions_new params")
    case (Inl e)
    then show ?thesis by (simp add: new_error)
  next
    case (Inr p)
    note f = new_fields [OF Inr]
    from o f(1,2,4,5,6,7) show ?thesis
      by (auto dest: check_enum_out_of_domain)
  qed
qed

lemma Version_call_value: "Version_call (Version_value x) = Inr x"
  by (cases x) (simp_all add: Version_call_def enum_call_def)

lemma CIPM_call_value: "CIPM_call (CIPM_value x) = Inr x"
  by (cases x) (simp_all add: CIPM_call_def enum_call_def)

lemma MHTF_call_value: "MHTF_call (MHTF_value x) = Inr x"
  by (cases x) (simp_all add: MHTF_call_def enum_call_def)

lemma LSA_call_value: "LSA_call (LSA_value x) = Inr x"
  by (cases x) (simp_all add: LSA_call_def enum_call_def)

lemma CAM_call_value: "CAM_call (CAM_value x) = Inr x"
  by (cases x) (simp_all add: CAM_call_def enum_call_def)

lemma check_enum_iff:
  assumes "\<And>v. typespec (val v) = Inr v" and "\<And>n v. typespec n = Inr v \<Longrightarrow> val v = n"
  shows "check_enum typespec arg = Inr f \<longleftrightarrow> validated val arg f"
proof (cases arg)
  case (IntValue n)
  show ?thesis
  proof
    assume "check_enum typespec arg = Inr f"
    with IntValue obtain v where "typespec n = Inr v" "f = Some v"
      by (auto split: sum.splits)
    with assms(2) IntValue show "validated val arg f"
      by (auto simp: validated_def)
  next
    assume "validated val arg f"
    with IntValue obtain v where "f = Some v" "val v = n"
      by (auto simp: validated_def split: option.splits)
    with assms(1) [of v] IntValue show "check_enum typespec arg = Inr f"
      by auto
  qed
qed (auto simp: validated_def split: option.splits)

lemma check_Version_iff: "check_enum Version_call arg = Inr f \<longleftrightarrow> validated Version_value arg f"
  by (rule check_enum_iff, rule Version_call_value, unfold Version_call_def, erule enum_call_value)

lemma check_CIPM_iff: "check_enum CIPM_call arg = Inr f \<longleftrightarrow> validated CIPM_value arg f"
  by (rule check_enum_iff, rule CIPM_call_value, unfold CIPM_call_def, erule enum_call_value)

lemma check_MHTF_iff: "check_enum MHTF_call arg = Inr f \<longleftrightarrow> validated MHTF_value arg f"
  by (rule check_enum_iff, rule MHTF_call_value, unfold MHTF_call_def, erule enum_call_value)

lemma check_LSA_iff: "check_enum LSA_call arg = Inr f \<longleftrightarrow> validated LSA_value arg f"
  by (rule check_enum_iff, rule LSA_call_value, unfold LSA_call_def, erule enum_call_value)

lemma check_CAM_iff: "check_enum CAM_call arg = Inr f \<longleftrightarrow> validated CAM_value arg f"
  by (rule check_enum_iff, rule CAM_call_value, unfold CAM_call_def, erule enum_call_value)

lemma check_bytes_iff: "check_bytes arg = Inr f \<longleftrightarrow> validated_bytes arg f"
  by (cases arg) (auto simp: validated_bytes_def split: option.splits)

lemma check_int_iff: "check_int arg = Inr f \<longleftrightarrow> validated_int arg f"
  by (cases arg) (auto simp: validated_int_def split: option.splits)

lemma check_set_iff: "check_set arg = Inr f \<longleftrightarrow> validated_set arg f"
  by (cases arg) (auto simp: validated_set_def split: option.splits)

lemma new_iff:
  "ProtocolOptions_new params = Inr p \<longleftrightarrow>
     check_enum Version_call (version_arg params) = Inr (version p) \<and>
     check_enum Version_call (minimum_version_arg params) = Inr (minimum_version p) \<and>
     check_bytes (swarm_identifier_arg params) = Inr (swarm_identifier p) \<and>
     check_enum CIPM_call (content_integrity_protection_method_arg params) =
       Inr (content_integrity_protection_method p) \<and>
     check_enum MHTF_call (merkle_hash_tree_function_arg params) =
       Inr (merkle_hash_tree_function p) \<and>
     check_enum LSA_call (live_signature_algorithm_arg params) =
       Inr (live_signature_algorithm p) \<and>
     check_enum CAM_call (chunk_addressing_method_arg params) =
       Inr (chunk_addressing_method p) \<and>
     check_int (live_discard_window_arg params) = Inr (live_discard_window p) \<and>
     check_set (supported_messages_arg params) = Inr (supported_messages p) \<and>
     check_int (chunk_size_arg params) = Inr (chunk_size p)"
proof
  assume "ProtocolOptions_new params = Inr p"
  from new_fields [OF this] show "check_enum Version_call (version_arg params) = Inr (version p) \<and>
     check_enum Version_call (minimum_version_arg params) = Inr (minimum_version p) \<and>
     check_bytes (swarm_identifier_arg params) = Inr (swarm_identifier p) \<and>
     check_enum CIPM_call (content_integrity_protection_method_arg params) =
       Inr (content_integrity_protection_method p) \<and>
     check_enum MHTF_call (merkle_hash_tree_function_arg params) =
       Inr (merkle_hash_tree_function p) \<and>
     check_enum LSA_call (live_signature_algorithm_arg params) =
       Inr (live_signature_algorithm p) \<and>
     check_enum CAM_call (chunk_addressing_method_arg params) =
       Inr (chunk_addressing_method p) \<and>
     check_int (live_discard_window_arg params) = Inr (live_discard_window p) \<and>
     check_set (supported_messages_arg params) = Inr (supported_messages p) \<and>
     check_int (chunk_size_arg params) = Inr (chunk_size p)"
    by simp
next
  assume "check_enum Version_call (version_arg params) = Inr (version p) \<and>
     check_enum Version_call (minimum_version_arg params) = Inr (minimum_version p) \<and>
     check_bytes (swarm_identifier_arg params) = Inr (swarm_identifier p) \<and>
     check_enum CIPM_call (content_integrity_protection_method_arg params) =
       Inr (content_integrity_protection_method p) \<and>
     check_enum MHTF_call (merkle_hash_tree_function_arg params) =
       Inr (merkle_hash_tree_function p) \<and>
     check_enum LSA_call (live_signature_algorithm_arg params) =
       Inr (live_signature_algorithm p) \<and>
     check_enum CAM_call (chunk_addressing_method_arg params) =
       Inr (chunk_addressing_method p) \<and>
     check_int (live_discard_window_arg params) = Inr (live_discard_window p) \<and>
     check_set (supported_messages_arg params) = Inr (supported_messages p) \<and>
     check_int (chunk_size_arg params) = Inr (chunk_size p)"
  then show "ProtocolOptions_new params = Inr p"
    by (cases p) (simp add: ProtocolOptions_new_def bind_err_def)
qed

text \<open>
  C10. The constructor checks every argument that is not \<open>None\<close>. It returns the record
  \<open>p\<close> exactly when each of the ten fields of \<open>p\<close> is the validated value of its
  argument: \<open>None\<close> for \<open>None\<close>, the instance for an instance, and a coercible value as
  the value of the annotated type (a number as the member with that value for an
  enumeration, as so many zero bytes for \<open>bytes\<close>). In every other case it raises, and
  what it raises is \<open>TypeError\<close>; it does so in particular whenever the argument of an
  enumeration field is a number outside the enumeration, as \<open>version=2\<close> is. So no number
  outside an enumeration reaches the encoder through the constructor.
\<close>

theorem ProtocolOptions_new_validates:
  "(case ProtocolOptions_new params of
      Inl e \<Rightarrow> e = TypeError
    | Inr p \<Rightarrow>
        validated Version_value (version_arg params) (version p) \<and>
        validated Version_value (minimum_version_arg params) (minimum_version p) \<and>
        validated CIPM_value (content_integrity_protection_method_arg params)
          (content_integrity_protection_method p) \<and>
        validated MHTF_value (merkle_hash_tree_function_arg params)
          (merkle_hash_tree_function p) \<and>
        validated LSA_value (live_signature_algorithm_arg params)
          (live_signature_algorithm p) \<and>
        validated CAM_value (chunk_addressing_method_arg params)
          (chunk_addressing_method p) \<and>
        (swarm_identifier_arg params = PyNone \<longrightarrow> swarm_identifier p = None) \<and>
        (live_discard_window_arg params = PyNone \<longrightarrow> live_discard_window p = None) \<and>
        (supported_messages_arg params = PyNone \<longrightarrow> supported_messages p = None) \<and>
        (chunk_size_arg params = PyNone \<longrightarrow> chunk_size p = None)) \<and>
   (out_of_domain Version_call (version_arg params) \<or>
    out_of_domain Version_call (minimum_version_arg params) \<or>
    out_of_domain CIPM_call (content_integrity_protection_method_arg params) \<or>
    out_of_domain MHTF_call (merkle_hash_tree_function_arg params) \<or>
    out_of_domain LSA_call (live_signature_algorithm_arg params) \<or>
    out_of_domain CAM_call (chunk_addressing_method_arg params) \<longrightarrow>
    ProtocolOptions_new params = Inl TypeError) \<and>
   (ProtocolOptions_new params = Inr p \<longleftrightarrow>
      validated Version_value (version_arg params) (version p) \<and>
      validated Version_value (minimum_version_arg params) (minimum_version p) \<and>
      validated_bytes (swarm_identifier_arg params) (swarm_identifier p) \<and>
      validated CIPM_value (content_integrity_protection_method_arg params)
        (content_integrity_protection_method p) \<and>
      validated MHTF_value (merkle_hash_tree_function_arg params)
        (merkle_hash_tree_function p) \<and>
      validated LSA_value (live_signature_algorithm_arg params)
        (live_signature_algorithm p) \<and>
      validated CAM_value (chunk_addressing_method_arg params)
        (chunk_addressing_method p) \<and>
      validated_int (live_discard_window_arg params) (live_discard_window p) \<and>
      validated_set (supported_messages_arg params) (supported_messages p) \<and>
      validated_int (chunk_size_arg params) (chunk_size p))"
  using new_checks [of params]
  by (simp add: new_iff check_Version_iff check_CIPM_iff check_MHTF_iff check_LSA_iff
        check_CAM_iff check_bytes_iff check_int_iff check_set_iff)

theorem ProtocolOptions_new_validates_witness:
  "ProtocolOptions_new (no_args\<lparr>version_arg := IntValue 2\<rparr>) = Inl TypeError \<and>
   out_of_domain Version_call (version_arg (no_args\<lparr>version_arg := IntValue 2\<rparr>)) \<and>
   ProtocolOptions_new
     (no_args\<lparr>version_arg := IntValue 1, swarm_identifier_arg := IntValue 2,
        chunk_addressing_method_arg := IntValue 2, chunk_size_arg := Instance 1024\<rparr>) =
     Inr (no_options\<lparr>version := Some rfc7574, swarm_identifier := Some [0, 0],
            chunk_addressing_method := Some chunks32, chunk_size := Some 1024\<rparr>) \<and>
   ProtocolOptions_new (no_args\<lparr>supported_messages_arg := IntValue 3\<rparr>) = Inl TypeError"
proof -
  have v: "validated Version_value (IntValue 1) (Some rfc7574)"
      "validated Version_value PyNone None" "validated CIPM_value PyNone None"
      "validated MHTF_value PyNone None" "validated LSA_value PyNone None"
      "validated CAM_value (IntValue 2) (Some chunks32)"
      "validated_bytes (IntValue 2) (Some [0, 0])" "validated_int PyNone None"
      "validated_set PyNone None" "validated_int (Instance 1024) (Some 1024)"
    by (simp_all add: validated_def validated_bytes_def validated_int_def validated_set_def
        numeral_2_eq_2)
  have o: "out_of_domain Version_call (IntValue 2)"
    by (simp add: out_of_domain_def Version_call_def enum_call_def)
  have s: "\<not> validated_set (IntValue 3) f" for f
    by (simp add: validated_set_def)
  let ?a = "no_args\<lparr>version_arg := IntValue 2\<rparr>"
  let ?b = "no_args\<lparr>version_arg := IntValue 1, swarm_identifier_arg := IntValue 2,
               chunk_addressing_method_arg := IntValue 2, chunk_size_arg := Instance 1024\<rparr>"
  let ?c = "no_args\<lparr>supported_messages_arg := IntValue 3\<rparr>"
  have a: "ProtocolOptions_new ?a = Inl TypeError"
    using ProtocolOptions_new_validates [of ?a] o
    by (simp add: no_args_def)
  have b: "ProtocolOptions_new ?b =
     Inr (no_options\<lparr>version := Some rfc7574, swarm_identifier := Some [0, 0],
            chunk_addressing_method := Some chunks32, chunk_size := Some 1024\<rparr>)"
    using ProtocolOptions_new_validates
        [of ?b "no_options\<lparr>version := Some rfc7574, swarm_identifier := Some [0, 0],
               chunk_addressing_method := Some chunks32, chunk_size := Some 1024\<rparr>"]
    by (simp add: no_args_def no_options_def v)
  have c: "ProtocolOptions_new ?c = Inl TypeError"
  proof (cases "ProtocolOptions_new ?c")
    case (Inl e)
    with ProtocolOptions_new_validates [of ?c] show ?thesis
      by simp
  next
    case (Inr q)
    with ProtocolOptions_new_validates [of ?c q] s show ?thesis
      by (simp add: no_args_def)
  qed
  show ?thesis
    using a b c o by (simp add: no_args_def)
qed

section \<open>Properties of the datagram codec\<close>

lemma encode_message_default: "encode_message m None = Inl KeyError"
  by (simp add: encode_message_def handlers_or_def encode_message_handlers_def)

text \<open>
  C1, as claimed: for every valid datagram, decoding its encoding under the default handler
  tables gives the datagram back. The default tables are empty, so encoding a valid
  datagram that carries a message raises \<open>KeyError\<close>: there is nothing to decode.
\<close>

theorem datagram_roundtrip_counterexample:
  "Datagram_new [0, 0, 0, 1] [\<lparr>msg_type = HANDSHAKE, msg_body = ()\<rparr>] =
     Inr \<lparr>channel_id = [0, 0, 0, 1], messages = [\<lparr>msg_type = HANDSHAKE, msg_body = ()\<rparr>]\<rparr> \<and>
   datagrams_encode \<lparr>channel_id = [0, 0, 0, 1], messages = [\<lparr>msg_type = HANDSHAKE, msg_body = ()\<rparr>]\<rparr> =
     Inl KeyError"
  by (simp add: Datagram_new_def ChannelID_new_def DWORD_def datagrams_encode_def
      channel_ids_encode_def messages_encode_def encode_message_def handlers_or_def
      encode_message_handlers_def)

text \<open>
  C1, amended: a valid datagram with no message is encoded, and decoding the encoding
  gives the datagram back (the decoder returns, and with this datagram); encoding a valid
  datagram with at least one message raises \<open>KeyError\<close> under the default tables.
\<close>

theorem datagram_roundtrip_without_messages:
  assumes "Datagram_new cid ms = Inr d"
  shows "(ms = [] \<longrightarrow> (\<exists>b. datagrams_encode d = Inr b \<and> datagrams_decode b = Some (Inr d))) \<and>
         (ms \<noteq> [] \<longrightarrow> datagrams_encode d = Inl KeyError)"
proof -
  from assms have len: "length cid = DWORD" and d: "d = \<lparr>channel_id = cid, messages = ms\<rparr>"
    by (auto simp: Datagram_new_def ChannelID_new_def split: if_splits)
  have cid: "ChannelID_new cid = Inr cid"
    by (simp add: ChannelID_new_def len)
  have "datagrams_encode d = Inl KeyError" if "ms \<noteq> []"
  proof -
    from that obtain m ms' where "ms = m # ms'" by (cases ms) auto
    then show ?thesis
      by (simp add: datagrams_encode_def channel_ids_encode_def d cid messages_encode_def
          encode_message_default)
  qed
  moreover have "\<exists>b. datagrams_encode d = Inr b \<and> datagrams_decode b = Some (Inr d)" if "ms = []"
  proof -
    have e: "datagrams_encode d = Inr cid"
      by (simp add: datagrams_encode_def channel_ids_encode_def d cid messages_encode_def that)
    have "messages_decode [] None = Some (Inr ([] :: 'a Message list))"
      by (simp add: messages_decode_def messages_decode_loop.simps)
    then have "datagrams_decode cid = Some (Inr d)"
      by (simp add: datagrams_decode_def channel_ids_decode_def len cid d that Datagram_new_def)
    with e show ?thesis by simp
  qed
  ultimately show ?thesis by blast
qed

theorem datagram_roundtrip_without_messages_witness:
  "Datagram_new [0, 0, 0, 1] ([] :: unit Message list) =
     Inr \<lparr>channel_id = [0, 0, 0, 1], messages = []\<rparr> \<and>
   datagrams_encode \<lparr>channel_id = [0, 0, 0, 1], messages = ([] :: unit Message list)\<rparr> =
     Inr [0, 0, 0, 1] \<and>
   datagrams_decode [0, 0, 0, 1] =
     Some (Inr \<lparr>channel_id = [0, 0, 0, 1], messages = ([] :: unit Message list)\<rparr>) \<and>
   Datagram_new [0, 0, 0, 2] [\<lparr>msg_type = DATA, msg_body = ()\<rparr>] =
     Inr \<lparr>channel_id = [0, 0, 0, 2], messages = [\<lparr>msg_type = DATA, msg_body = ()\<rparr>]\<rparr> \<and>
   datagrams_encode \<lparr>channel_id = [0, 0, 0, 2], messages = [\<lparr>msg_type = DATA, msg_body = ()\<rparr>]\<rparr> =
     Inl KeyError"
proof -
  have a: "Datagram_new [0, 0, 0, 1] ([] :: unit Message list) =
     Inr \<lparr>channel_id = [0, 0, 0, 1], messages = []\<rparr>"
    by (simp add: Datagram_new_def ChannelID_new_def DWORD_def)
  have b: "Datagram_new [0, 0, 0, 2] [\<lparr>msg_type = DATA, msg_body = ()\<rparr>] =
     Inr \<lparr>channel_id = [0, 0, 0, 2], messages = [\<lparr>msg_type = DATA, msg_body = ()\<rparr>]\<rparr>"
    by (simp add: Datagram_new_def ChannelID_new_def DWORD_def)
  have e: "datagrams_encode \<lparr>channel_id = [0, 0, 0, 1], messages = ([] :: unit Message list)\<rparr> =
     Inr [0, 0, 0, 1]"
    by (simp add: datagrams_encode_def channel_ids_encode_def ChannelID_new_def DWORD_def
        messages_encode_def)
  show ?thesis
    using datagram_roundtrip_without_messages [OF a] datagram_roundtrip_without_messages [OF b]
    by (simp add: a b e)
qed

section \<open>Properties of the connector\<close>

text \<open>
  Concrete states for the examples: a key, a \<open>create_endpoint\<close> that attaches protocol 9,
  an open connector with one acquired connection (object 0, on the attached protocol 5),
  the same connector after that connection was released, and a closed connector on which
  the same connection was acquired after it was closed (\<open>connect\<close> does not look at the
  flag).
\<close>

definition key0 :: Address where "key0 = (''127.0.0.1'', 4242)"

definition fresh_endpoint :: "Connector \<Rightarrow> Connector \<times> endpoint" where
  "fresh_endpoint s = (s\<lparr>transport := (transport s)(9 := True)\<rparr>, Endpoint 9)"

definition one_connection :: Connector where
  "one_connection =
     \<lparr>pool = [], acquired = [(key0, [0])], closed = False, loop_closed = False,
      transport = (\<lambda>p. p = 5),
      connections = (\<lambda>c. \<lparr>conn_key = key0, conn_protocol = (if c = 0 then Some 5 else None)\<rparr>),
      next_cid = 1\<rparr>"

definition released_connection :: Connector where
  "released_connection = one_connection\<lparr>acquired := [(key0, [])], pool := [(key0, [Some 5])]\<rparr>"

definition closed_connector :: Connector where
  "closed_connector =
     \<lparr>pool = [], acquired = [(key0, [0])], closed = True, loop_closed = False,
      transport = (\<lambda>p. p = 5),
      connections = (\<lambda>c. \<lparr>conn_key = key0, conn_protocol = (if c = 0 then Some 5 else None)\<rparr>),
      next_cid = 1\<rparr>"

lemma map_of_dict_set: "map_of (dict_set k v d) k' = (if k' = k then Some v else map_of d k')"
  by (induction d) auto

lemma map_of_dict_del: "map_of (dict_del k d) k' = (if k' = k then None else map_of d k')"
  by (induction d) (auto simp: dict_del_def)

lemma map_of_append_new: "map_of d k = None \<Longrightarrow> map_of (d @ [(k, v)]) k' = (if k' = k then Some v else map_of d k')"
  by (induction d) (auto split: if_splits)

lemma acquired_remove_other [simp]: "pool (acquired_remove s k c) = pool s"
  "closed (acquired_remove s k c) = closed s" "connections (acquired_remove s k c) = connections s"
  "transport (acquired_remove s k c) = transport s" "next_cid (acquired_remove s k c) = next_cid s"
  by (auto simp: acquired_remove_def split: option.splits)

lemma release_connection_open:
  "\<not> closed s \<Longrightarrow> release_connection s c =
     ((acquired_remove s (conn_key (connections s c)) c)
        \<lparr>pool := dict_set (conn_key (connections s c))
           ((case map_of (pool s) (conn_key (connections s c)) of None \<Rightarrow> [] | Some ps \<Rightarrow> ps) @
            [conn_protocol (connections s c)]) (pool s)\<rparr>, None)"
  by (simp add: release_connection_def Let_def)

lemma get_connection_pop:
  "map_of (pool s) k = Some (ps @ [p]) \<Longrightarrow>
   get_connection s k =
     (s\<lparr>pool := (if ps = [] then dict_del k (pool s) else dict_set k ps (pool s)),
        connections := (connections s)(next_cid s := \<lparr>conn_key = k, conn_protocol = p\<rparr>),
        next_cid := Suc (next_cid s)\<rparr>, Inr (Some (next_cid s)))"
proof -
  assume m: "map_of (pool s) k = Some (ps @ [p])"
  obtain a l where e: "ps @ [p] = a # l"
    by (cases "ps @ [p]") auto
  have b: "butlast (a # l) = ps" and l: "last (a # l) = p"
    by (metis butlast_snoc e, metis last_snoc e)
  show ?thesis
    by (simp add: get_connection_def m e b l spawn_connection_def Let_def
        del: butlast.simps last.simps)
qed

lemma connect_pop:
  "map_of (pool s) k = Some (ps @ [p]) \<Longrightarrow>
   connect create_endpoint s k =
     (add_acquired (s\<lparr>pool := (if ps = [] then dict_del k (pool s) else dict_set k ps (pool s)),
        connections := (connections s)(next_cid s := \<lparr>conn_key = k, conn_protocol = p\<rparr>),
        next_cid := Suc (next_cid s)\<rparr>) k (next_cid s), Inr (next_cid s))"
  by (simp add: connect_def connect_key_def get_connection_pop)

lemma connect_fresh:
  "map_of (pool s) k = None \<Longrightarrow>
   connect create_endpoint s k =
     (case create_endpoint s of
        (s2, Timeout) \<Rightarrow> (s2, Inl TimeoutError)
      | (s2, OSError) \<Rightarrow> (s2, Inl ConnectionError)
      | (s2, Endpoint protocol) \<Rightarrow>
          (add_acquired (fst (spawn_connection s2 k (Some protocol))) k (next_cid s2),
           Inr (next_cid s2)))"
  by (auto simp: connect_def connect_key_def get_connection_def spawn_connection_def
      split: prod.splits endpoint.splits)

lemma add_acquired_other [simp]: "pool (add_acquired s k c) = pool s"
  "closed (add_acquired s k c) = closed s" "connections (add_acquired s k c) = connections s"
  "transport (add_acquired s k c) = transport s" "next_cid (add_acquired s k c) = next_cid s"
  by (auto simp: add_acquired_def split: option.splits)

lemma add_acquired_member: "\<exists>cs. map_of (acquired (add_acquired s k c)) k = Some cs \<and> c \<in> set cs"
  by (auto simp: add_acquired_def map_of_dict_set map_add_def split: option.splits)

text \<open>
  C7, as claimed: in every connector state, releasing a connection under a key and then
  connecting with that key returns a connection on the released endpoint. On a closed
  connector \<open>release_connection\<close> returns at once, the endpoint is not pooled, and
  \<open>connect\<close> creates an endpoint: the released protocol is 5, the new connection is on
  protocol 9.
\<close>

theorem release_on_closed_connector_counterexample:
  "closed closed_connector \<and>
   conn_key (connections closed_connector 0) = key0 \<and>
   conn_protocol (connections closed_connector 0) = Some 5 \<and>
   release_connection closed_connector 0 = (closed_connector, None) \<and>
   snd (connect fresh_endpoint closed_connector key0) = Inr 1 \<and>
   conn_protocol (connections (fst (connect fresh_endpoint closed_connector key0)) 1) = Some 9"
  by (simp add: closed_connector_def release_connection_def connect_def connect_key_def
      get_connection_def fresh_endpoint_def spawn_connection_def)

lemma release_then_connect_open:
  assumes "\<not> closed s"
  shows "(case release_connection s c of (s1, r1) \<Rightarrow>
      r1 = None \<and>
      (case connect create_endpoint s1 (conn_key (connections s c)) of (s2, r2) \<Rightarrow>
         r2 = Inr (next_cid s) \<and>
         connections s2 (next_cid s) =
           \<lparr>conn_key = conn_key (connections s c),
            conn_protocol = conn_protocol (connections s c)\<rparr> \<and>
         (\<exists>cs. map_of (acquired s2) (conn_key (connections s c)) = Some cs \<and> next_cid s \<in> set cs) \<and>
         (\<forall>ce. connect ce s1 (conn_key (connections s c)) = (s2, r2)) \<and>
         map_of (pool s2) (conn_key (connections s c)) =
           (case map_of (pool s) (conn_key (connections s c)) of
              Some (p # ps) \<Rightarrow> Some (p # ps)
            | _ \<Rightarrow> None))) \<and>
    (map_of (pool s) k = Some (ps @ [p]) \<longrightarrow>
       (case connect create_endpoint s k of (s', r) \<Rightarrow>
          r = Inr (next_cid s) \<and>
          connections s' (next_cid s) = \<lparr>conn_key = k, conn_protocol = p\<rparr> \<and>
          map_of (pool s') k = (if ps = [] then None else Some ps))) \<and>
    (map_of (pool s) k = None \<longrightarrow>
       connect create_endpoint s k =
         (case create_endpoint s of
            (s', Timeout) \<Rightarrow> (s', Inl TimeoutError)
          | (s', OSError) \<Rightarrow> (s', Inl ConnectionError)
          | (s', Endpoint protocol) \<Rightarrow>
              (add_acquired (fst (spawn_connection s' k (Some protocol))) k (next_cid s'),
               Inr (next_cid s'))))"
proof (intro conjI impI)
  define key where "key = conn_key (connections s c)"
  define old where "old = (case map_of (pool s) key of None \<Rightarrow> [] | Some ps \<Rightarrow> ps)"
  define s1 where "s1 = (acquired_remove s key c)
        \<lparr>pool := dict_set key (old @ [conn_protocol (connections s c)]) (pool s)\<rparr>"
  have r: "release_connection s c = (s1, None)"
    using assms by (simp add: release_connection_open s1_def key_def old_def)
  have p1: "map_of (pool s1) key = Some (old @ [conn_protocol (connections s c)])"
    by (simp add: s1_def map_of_dict_set)
  note cp = connect_pop [OF p1]
  have n1: "next_cid s1 = next_cid s"
    by (simp add: s1_def)
  have old: "(case map_of (pool s) key of Some (p # ps) \<Rightarrow> Some (p # ps) | _ \<Rightarrow> None) =
      (if old = [] then None else Some old)"
    by (auto simp: old_def split: option.splits list.splits)
  show "case release_connection s c of (s1, r1) \<Rightarrow>
      r1 = None \<and>
      (case connect create_endpoint s1 (conn_key (connections s c)) of (s2, r2) \<Rightarrow>
         r2 = Inr (next_cid s) \<and>
         connections s2 (next_cid s) =
           \<lparr>conn_key = conn_key (connections s c),
            conn_protocol = conn_protocol (connections s c)\<rparr> \<and>
         (\<exists>cs. map_of (acquired s2) (conn_key (connections s c)) = Some cs \<and> next_cid s \<in> set cs) \<and>
         (\<forall>ce. connect ce s1 (conn_key (connections s c)) = (s2, r2)) \<and>
         map_of (pool s2) (conn_key (connections s c)) =
           (case map_of (pool s) (conn_key (connections s c)) of
              Some (p # ps) \<Rightarrow> Some (p # ps)
            | _ \<Rightarrow> None))"
    unfolding key_def [symmetric] r old
    by (simp add: cp add_acquired_member map_of_dict_set map_of_dict_del n1)
next
  assume "map_of (pool s) k = Some (ps @ [p])"
  then show "case connect create_endpoint s k of (s', r) \<Rightarrow>
          r = Inr (next_cid s) \<and>
          connections s' (next_cid s) = \<lparr>conn_key = k, conn_protocol = p\<rparr> \<and>
          map_of (pool s') k = (if ps = [] then None else Some ps)"
    by (simp add: connect_pop map_of_dict_set map_of_dict_del)
next
  assume "map_of (pool s) k = None"
  then show "connect create_endpoint s k =
         (case create_endpoint s of
            (s', Timeout) \<Rightarrow> (s', Inl TimeoutError)
          | (s', OSError) \<Rightarrow> (s', Inl ConnectionError)
          | (s', Endpoint protocol) \<Rightarrow>
              (add_acquired (fst (spawn_connection s' k (Some protocol))) k (next_cid s'),
               Inr (next_cid s')))"
    by (rule connect_fresh)
qed

text \<open>
  C7, amended. On a closed connector \<open>release_connection\<close> does nothing: it returns with
  the state unchanged. On a connector that is not closed, releasing a connection \<open>c\<close> and
  then connecting with its key returns a new connection object with that key on the
  protocol of \<open>c\<close>, registers it as acquired, does so whatever \<open>create_endpoint\<close> is (it
  is not called), and leaves the pool entry of the key as it was before the release,
  erased when it was empty or absent. In every state, closed or not, \<open>connect\<close> on a key
  whose pool entry ends with \<open>p\<close> returns a connection on \<open>p\<close> and leaves the rest of
  the entry, erasing the entry when nothing is left (last in, first out); and \<open>connect\<close>
  on a key with no pool entry calls \<open>create_endpoint\<close> and wraps the protocol it
  returns, or raises \<open>TimeoutError\<close> or \<open>ConnectionError\<close> when it fails.
\<close>

theorem release_then_connect_reuses_endpoint:
  "(closed s \<longrightarrow> release_connection s c = (s, None)) \<and>
    (\<not> closed s \<longrightarrow>
      (case release_connection s c of (s1, r1) \<Rightarrow>
      r1 = None \<and>
      (case connect create_endpoint s1 (conn_key (connections s c)) of (s2, r2) \<Rightarrow>
         r2 = Inr (next_cid s) \<and>
         connections s2 (next_cid s) =
           \<lparr>conn_key = conn_key (connections s c),
            conn_protocol = conn_protocol (connections s c)\<rparr> \<and>
         (\<exists>cs. map_of (acquired s2) (conn_key (connections s c)) = Some cs \<and> next_cid s \<in> set cs) \<and>
         (\<forall>ce. connect ce s1 (conn_key (connections s c)) = (s2, r2)) \<and>
         map_of (pool s2) (conn_key (connections s c)) =
           (case map_of (pool s) (conn_key (connections s c)) of
              Some (p # ps) \<Rightarrow> Some (p # ps)
            | _ \<Rightarrow> None)))) \<and>
    (map_of (pool s) k = Some (ps @ [p]) \<longrightarrow>
       (case connect create_endpoint s k of (s', r) \<Rightarrow>
          r = Inr (next_cid s) \<and>
          connections s' (next_cid s) = \<lparr>conn_key = k, conn_protocol = p\<rparr> \<and>
          map_of (pool s') k = (if ps = [] then None else Some ps))) \<and>
    (map_of (pool s) k = None \<longrightarrow>
       connect create_endpoint s k =
         (case create_endpoint s of
            (s', Timeout) \<Rightarrow> (s', Inl TimeoutError)
          | (s', OSError) \<Rightarrow> (s', Inl ConnectionError)
          | (s', Endpoint protocol) \<Rightarrow>
              (add_acquired (fst (spawn_connection s' k (Some protocol))) k (next_cid s'),
               Inr (next_cid s'))))"
proof (intro conjI impI)
  assume "closed s"
  then show "release_connection s c = (s, None)"
    by (simp add: release_connection_def)
next
  assume "\<not> closed s"
  from release_then_connect_open [OF this, of c create_endpoint, THEN conjunct1]
  show "case release_connection s c of (s1, r1) \<Rightarrow>
      r1 = None \<and>
      (case connect create_endpoint s1 (conn_key (connections s c)) of (s2, r2) \<Rightarrow>
         r2 = Inr (next_cid s) \<and>
         connections s2 (next_cid s) =
           \<lparr>conn_key = conn_key (connections s c),
            conn_protocol = conn_protocol (connections s c)\<rparr> \<and>
         (\<exists>cs. map_of (acquired s2) (conn_key (connections s c)) = Some cs \<and> next_cid s \<in> set cs) \<and>
         (\<forall>ce. connect ce s1 (conn_key (connections s c)) = (s2, r2)) \<and>
         map_of (pool s2) (conn_key (connections s c)) =
           (case map_of (pool s) (conn_key (connections s c)) of
              Some (p # ps) \<Rightarrow> Some (p # ps)
            | _ \<Rightarrow> None))" .
next
  assume "map_of (pool s) k = Some (ps @ [p])"
  then show "case connect create_endpoint s k of (s', r) \<Rightarrow>
          r = Inr (next_cid s) \<and>
          connections s' (next_cid s) = \<lparr>conn_key = k, conn_protocol = p\<rparr> \<and>
          map_of (pool s') k = (if ps = [] then None else Some ps)"
    by (simp add: connect_pop map_of_dict_set map_of_dict_del)
next
  assume "map_of (pool s) k = None"
  then show "connect create_endpoint s k =
         (case create_endpoint s of
            (s', Timeout) \<Rightarrow> (s', Inl TimeoutError)
          | (s', OSError) \<Rightarrow> (s', Inl ConnectionError)
          | (s', Endpoint protocol) \<Rightarrow>
              (add_acquired (fst (spawn_connection s' k (Some protocol))) k (next_cid s'),
               Inr (next_cid s')))"
    by (rule connect_fresh)
qed

theorem release_then_connect_reuses_endpoint_witness:
  "closed closed_connector \<and>
   release_connection closed_connector 0 = (closed_connector, None) \<and>
   map_of (pool closed_connector) key0 = None \<and>
   snd (connect fresh_endpoint closed_connector key0) = Inr 1 \<and>
   \<not> closed one_connection \<and>
   release_connection one_connection 0 = (released_connection, None) \<and>
   snd (connect fresh_endpoint released_connection key0) = Inr 1 \<and>
   conn_protocol (connections (fst (connect fresh_endpoint released_connection key0)) 1) = Some 5 \<and>
   map_of (pool (fst (connect fresh_endpoint released_connection key0))) key0 = None \<and>
   \<not> closed released_connection \<and>
   map_of (pool released_connection) key0 = Some ([] @ [Some 5]) \<and>
   map_of (pool one_connection) key0 = None \<and>
   snd (connect fresh_endpoint one_connection key0) = Inr 1 \<and>
   conn_protocol (connections (fst (connect fresh_endpoint one_connection key0)) 1) = Some 9"
proof -
  have o: "\<not> closed one_connection"
    by (simp add: one_connection_def)
  have o': "\<not> closed released_connection"
    by (simp add: released_connection_def one_connection_def)
  have r: "release_connection one_connection 0 = (released_connection, None)"
    by (simp add: release_connection_def one_connection_def acquired_remove_def Let_def
        released_connection_def)
  have k: "conn_key (connections one_connection 0) = key0"
    by (simp add: one_connection_def)
  have pr: "conn_protocol (connections one_connection 0) = Some 5"
    by (simp add: one_connection_def)
  have n: "next_cid one_connection = 1" "next_cid released_connection = 1"
    by (simp_all add: one_connection_def released_connection_def)
  have p0: "map_of (pool one_connection) key0 = None"
    by (simp add: one_connection_def)
  have p1: "map_of (pool released_connection) key0 = Some ([] @ [Some 5])"
    by (simp add: released_connection_def)
  have f: "fresh_endpoint one_connection =
      (one_connection\<lparr>transport := (transport one_connection)(9 := True)\<rparr>, Endpoint 9)"
    by (simp add: fresh_endpoint_def)
  have cl: "closed closed_connector" "map_of (pool closed_connector) key0 = None"
    "next_cid closed_connector = 1"
    by (simp_all add: closed_connector_def)
  have f': "fresh_endpoint closed_connector =
      (closed_connector\<lparr>transport := (transport closed_connector)(9 := True)\<rparr>, Endpoint 9)"
    by (simp add: fresh_endpoint_def)
  show ?thesis
    using release_then_connect_reuses_endpoint
        [where s = one_connection and c = 0 and create_endpoint = fresh_endpoint and k = key0
          and ps = "[]" and p = "Some 5"]
      release_then_connect_reuses_endpoint
        [where s = released_connection and c = 0 and create_endpoint = fresh_endpoint
          and k = key0 and ps = "[]" and p = "Some 5"]
      release_then_connect_reuses_endpoint
        [where s = closed_connector and c = 0 and create_endpoint = fresh_endpoint
          and k = key0 and ps = "[]" and p = "Some 5"]
    by (simp add: r o o' k pr n p0 p1 f f' cl spawn_connection_def split: prod.splits)
qed

text \<open>
  The vocabulary of the invariant of \<open>close\<close>. \<open>later s s'\<close>: from \<open>s\<close> to \<open>s'\<close>
  transports were only dropped and connections only lost their protocol, so a closed
  connection stays closed. \<open>kept s s'\<close>: moreover no entry of \<open>acquired\<close> went away, and
  a connection that left its set is closed.
\<close>

definition later :: "Connector \<Rightarrow> Connector \<Rightarrow> bool" where
  "later s s' =
     ((\<forall>p. transport s' p \<longrightarrow> transport s p) \<and>
      (\<forall>c. conn_protocol (connections s' c) = None \<or>
           conn_protocol (connections s' c) = conn_protocol (connections s c)))"

definition kept :: "Connector \<Rightarrow> Connector \<Rightarrow> bool" where
  "kept s s' =
     (later s s' \<and> length (acquired s) \<le> length (acquired s') \<and>
      (\<forall>i < length (acquired s). \<forall>x \<in> set (snd (acquired s ! i)).
          x \<in> set (snd (acquired s' ! i)) \<or> Connection_closed s' x))"

text \<open>The state of the counterexample: the connector of one connection, its loop closed.\<close>

definition closed_loop_connector :: Connector where
  "closed_loop_connector = one_connection\<lparr>loop_closed := True\<rparr>"

lemma later_refl: "later s s"
  by (simp add: later_def)

lemma later_trans: "later s s' \<Longrightarrow> later s' s'' \<Longrightarrow> later s s''"
  unfolding later_def by metis

lemma later_closed: "later s s' \<Longrightarrow> Connection_closed s c \<Longrightarrow> Connection_closed s' c"
  unfolding later_def Connection_closed_def Protocol_closed_def
  by (metis option.case_eq_if)

lemma kept_refl: "kept s s"
  by (simp add: kept_def later_refl)

lemma kept_trans:
  assumes "kept s s'" and "kept s' s''"
  shows "kept s s''"
proof -
  have l: "later s s''" and l': "later s' s''"
    using assms by (auto simp: kept_def intro: later_trans)
  have n: "length (acquired s) \<le> length (acquired s'')"
    using assms by (simp add: kept_def)
  have "x \<in> set (snd (acquired s'' ! i)) \<or> Connection_closed s'' x"
    if "i < length (acquired s)" and "x \<in> set (snd (acquired s ! i))" for i x
  proof -
    from assms(1) that have "x \<in> set (snd (acquired s' ! i)) \<or> Connection_closed s' x"
      by (simp add: kept_def)
    moreover have "i < length (acquired s')"
      using assms(1) that by (simp add: kept_def)
    ultimately show ?thesis
      using assms(2) later_closed [OF l'] by (auto simp: kept_def)
  qed
  with l n show ?thesis
    by (simp add: kept_def)
qed

lemma Protocol_close_effect:
  assumes "Protocol_close s pr = (s', r)"
  shows "connections s' = connections s" "acquired s' = acquired s"
    "\<forall>p. transport s' p \<longrightarrow> transport s p"
    "r = None \<longrightarrow> (\<exists>p. pr = Some p \<and> \<not> transport s' p)"
  using assms by (auto simp: Protocol_close_def split: option.splits if_splits)

lemma dict_set_nth:
  "map_of d k = Some cs \<Longrightarrow> i < length d \<Longrightarrow>
     dict_set k v d ! i = d ! i \<or> (d ! i = (k, cs) \<and> dict_set k v d ! i = (k, v))"
proof (induction d arbitrary: i)
  case Nil
  then show ?case by simp
next
  case (Cons a d)
  then show ?case
    by (cases a; cases i) (auto split: if_splits)
qed

lemma length_dict_set: "map_of d k = Some cs \<Longrightarrow> length (dict_set k v d) = length d"
  by (induction d) (auto split: if_splits)

lemma acquired_remove_kept:
  "\<forall>i < length (acquired s). \<forall>x \<in> set (snd (acquired s ! i)).
      x \<in> set (snd (acquired (acquired_remove s k c) ! i)) \<or> x = c"
proof (cases "map_of (acquired s) k")
  case None
  then show ?thesis
    by (simp add: acquired_remove_def nth_append)
next
  case (Some cs)
  show ?thesis
  proof (intro allI impI ballI)
    fix i x
    assume i: "i < length (acquired s)" and x: "x \<in> set (snd (acquired s ! i))"
    from dict_set_nth [OF Some i, of "removeAll c cs"] x
    show "x \<in> set (snd (acquired (acquired_remove s k c) ! i)) \<or> x = c"
      by (auto simp: acquired_remove_def Some)
  qed
qed

lemma length_acquired_remove: "length (acquired s) \<le> length (acquired (acquired_remove s k c))"
  by (auto simp: acquired_remove_def length_dict_set split: option.splits)

lemma Connection_close_kept:
  assumes "Connection_close s c = (s', r)"
  shows "kept s s' \<and> (r = None \<longrightarrow> Connection_closed s' c)"
proof (cases "Connection_closed s c")
  case True
  with assms show ?thesis
    by (auto simp: Connection_close_def kept_refl)
next
  case False
  then obtain p where p: "conn_protocol (connections s c) = Some p" and t: "transport s p"
    by (auto simp: Connection_closed_def Protocol_closed_def split: option.splits)
  show ?thesis
  proof (cases "closed s")
    case True
    with assms False have s': "s' = forget_protocol s c" and "r = None"
      by (auto simp: Connection_close_def close_connection_def)
    then show ?thesis
      by (auto simp: kept_def later_def forget_protocol_def Connection_closed_def)
  next
    case opn: False
    define sa where "sa = acquired_remove s (conn_key (connections s c)) c"
    define sb where "sb = sa\<lparr>transport := (transport sa)(p := False)\<rparr>"
    have cc: "close_connection s c = (sb, None)"
      using opn p t
      by (simp add: close_connection_def Let_def sa_def sb_def Protocol_close_def)
    with assms False have s': "s' = forget_protocol sb c" and r: "r = None"
      by (auto simp: Connection_close_def)
    have closed: "Connection_closed s' c"
      by (simp add: s' forget_protocol_def Connection_closed_def)
    have l: "later s s'"
      by (auto simp: later_def s' forget_protocol_def sb_def sa_def)
    have a: "acquired s' = acquired sa"
      by (simp add: s' forget_protocol_def sb_def)
    have "x \<in> set (snd (acquired s' ! i)) \<or> Connection_closed s' x"
      if "i < length (acquired s)" and "x \<in> set (snd (acquired s ! i))" for i x
      using acquired_remove_kept [where s = s and c = c and k = "conn_key (connections s c)"]
        that closed
      by (auto simp: a sa_def)
    then show ?thesis
      using l closed length_acquired_remove [of s "conn_key (connections s c)" c]
      by (simp add: kept_def a sa_def)
  qed
qed

lemma close_connections_kept:
  "close_connections s cs = (s', r) \<Longrightarrow>
     kept s s' \<and> (r = None \<longrightarrow> (\<forall>c \<in> set cs. Connection_closed s' c))"
proof (induction cs arbitrary: s)
  case Nil
  then show ?case by (simp add: kept_refl)
next
  case (Cons c cs)
  obtain s1 r1 where c1: "Connection_close s c = (s1, r1)"
    by (cases "Connection_close s c")
  note k1 = Connection_close_kept [OF c1]
  show ?case
  proof (cases r1)
    case (Some e)
    with Cons.prems c1 k1 show ?thesis by auto
  next
    case None
    with Cons.prems c1 have "close_connections s1 cs = (s', r)" by simp
    from Cons.IH [OF this]
    have k2: "kept s1 s'" and cl: "r = None \<longrightarrow> (\<forall>c \<in> set cs. Connection_closed s' c)"
      by auto
    from k1 None have k1': "kept s s1" and c1': "Connection_closed s1 c"
      by auto
    from k2 have "later s1 s'"
      by (simp add: kept_def)
    from later_closed [OF this c1'] cl kept_trans [OF k1' k2] show ?thesis
      by simp
  qed
qed

lemma close_acquired_kept:
  "close_acquired s n is = (s', None) \<Longrightarrow> \<forall>i \<in> set is. i < length (acquired s) \<Longrightarrow>
     kept s s' \<and> (\<forall>i \<in> set is. \<forall>c \<in> set (snd (acquired s ! i)). Connection_closed s' c)"
proof (induction "is" arbitrary: s)
  case Nil
  then show ?case by (simp add: kept_refl split: if_splits)
next
  case (Cons i "is")
  from Cons.prems(1) have n: "length (acquired s) = n"
    by (auto split: if_splits)
  obtain s1 r1 where c1: "close_connections s (snd (acquired s ! i)) = (s1, r1)"
    by (cases "close_connections s (snd (acquired s ! i))")
  with Cons.prems(1) n have r1: "r1 = None" and rest: "close_acquired s1 n is = (s', None)"
    by (auto split: option.splits)
  from close_connections_kept [OF c1] r1
  have k1: "kept s s1" and cl1: "\<forall>c \<in> set (snd (acquired s ! i)). Connection_closed s1 c"
    by auto
  have "\<forall>j \<in> set is. j < length (acquired s1)"
    using Cons.prems(2) k1 by (auto simp: kept_def)
  from Cons.IH [OF rest this]
  have k2: "kept s1 s'"
    and cl2: "\<forall>j \<in> set is. \<forall>c \<in> set (snd (acquired s1 ! j)). Connection_closed s' c"
    by auto
  have l2: "later s1 s'"
    using k2 by (simp add: kept_def)
  have "Connection_closed s' c" if "j \<in> set (i # is)" and "c \<in> set (snd (acquired s ! j))" for j c
  proof (cases "j = i")
    case True
    with that cl1 later_closed [OF l2] show ?thesis by auto
  next
    case False
    with that have j: "j \<in> set is" by simp
    then have "j < length (acquired s)"
      using Cons.prems(2) by simp
    with k1 that have "c \<in> set (snd (acquired s1 ! j)) \<or> Connection_closed s1 c"
      by (simp add: kept_def)
    with cl2 j later_closed [OF l2] show ?thesis by auto
  qed
  with kept_trans [OF k1 k2] show ?case by blast
qed

lemma close_protocols_effect:
  "close_protocols s ps = (s', r) \<Longrightarrow>
     later s s' \<and> acquired s' = acquired s \<and> connections s' = connections s"
proof (induction ps arbitrary: s)
  case Nil
  then show ?case by (simp add: later_refl)
next
  case (Cons pr ps)
  obtain s1 r1 where c1: "Protocol_close s pr = (s1, r1)"
    by (cases "Protocol_close s pr")
  note e = Protocol_close_effect [OF c1]
  have l1: "later s s1"
    using e by (simp add: later_def)
  show ?case
  proof (cases r1)
    case (Some x)
    with Cons.prems c1 e l1 show ?thesis by auto
  next
    case None
    with Cons.prems c1 have "close_protocols s1 ps = (s', r)" by simp
    from Cons.IH [OF this] e l1 show ?thesis
      by (auto intro: later_trans)
  qed
qed

text \<open>
  C8, as claimed: after the first \<open>close()\<close> every connection acquired before it reports
  closed. When the event loop is closed \<open>close\<close> returns before it closes anything, the
  maps are cleared, and the acquired connection 0 still reports \<open>closed = False\<close>.
\<close>

theorem close_with_closed_loop_counterexample:
  "\<not> closed closed_loop_connector \<and>
   0 \<in> set (concat (map snd (acquired closed_loop_connector))) \<and>
   close closed_loop_connector =
     (closed_loop_connector\<lparr>pool := [], acquired := [], closed := True\<rparr>, None) \<and>
   \<not> Connection_closed (fst (close closed_loop_connector)) 0"
  by (simp add: closed_loop_connector_def one_connection_def close_def close_body_def
      Connection_closed_def Protocol_closed_def)

lemma close_open_loop:
  "(closed s \<longrightarrow> close s = (s, None)) \<and>
   (\<not> closed s \<longrightarrow>
      (case close s of (s1, r1) \<Rightarrow>
         pool s1 = [] \<and> acquired s1 = [] \<and> closed s1 \<and> close s1 = (s1, None) \<and>
         (\<not> loop_closed s \<and> r1 = None \<longrightarrow>
            (\<forall>c \<in> set (concat (map snd (acquired s))). Connection_closed s1 c))))"
proof (intro conjI impI)
  assume "closed s"
  then show "close s = (s, None)"
    by (simp add: close_def)
next
  assume opn: "\<not> closed s"
  obtain sb r where b: "close_body s = (sb, r)"
    by (cases "close_body s")
  define s1 where "s1 = sb\<lparr>pool := [], acquired := [], closed := True\<rparr>"
  have c: "close s = (s1, r)"
    using opn b by (simp add: close_def s1_def)
  have "Connection_closed s1 x"
    if lo: "\<not> loop_closed s" and r: "r = None" and x: "x \<in> set (concat (map snd (acquired s)))" for x
  proof -
    obtain sa ra where a: "close_protocols s (concat (map snd (pool s))) = (sa, ra)"
      by (cases "close_protocols s (concat (map snd (pool s)))")
    note ea = close_protocols_effect [OF a]
    from b lo a r have ra: "ra = None"
      and ca: "close_acquired sa (length (acquired sa)) [0 ..< length (acquired sa)] = (sb, None)"
      by (auto simp: close_body_def split: option.splits)
    from close_acquired_kept [OF ca]
    have all: "\<forall>i < length (acquired sa). \<forall>c \<in> set (snd (acquired sa ! i)). Connection_closed sb c"
      by simp
    from x obtain l where "l \<in> set (acquired s)" and xl: "x \<in> set (snd l)"
      by auto
    then obtain i where "i < length (acquired s)" "acquired s ! i = l"
      by (auto simp: in_set_conv_nth)
    with xl have "i < length (acquired s)" "x \<in> set (snd (acquired s ! i))"
      by simp_all
    with all ea have "Connection_closed sb x"
      by simp
    then show ?thesis
      by (auto simp: s1_def Connection_closed_def Protocol_closed_def split: option.splits)
  qed
  then show "case close s of (s1, r1) \<Rightarrow>
         pool s1 = [] \<and> acquired s1 = [] \<and> closed s1 \<and> close s1 = (s1, None) \<and>
         (\<not> loop_closed s \<and> r1 = None \<longrightarrow>
            (\<forall>c \<in> set (concat (map snd (acquired s))). Connection_closed s1 c))"
    by (simp add: c) (auto simp: s1_def close_def)
qed

text \<open>
  C8, amended: \<open>close\<close> on a closed connector changes nothing and raises nothing. On a
  connector that is not closed it leaves \<open>pool\<close> and \<open>acquired\<close> empty and the connector
  closed, however it ends, so that a second call changes nothing. When the event loop is
  not closed and the call returns without raising, every connection that was in
  \<open>acquired\<close> before the call reports closed after it. When the event loop is closed,
  \<open>close\<close> only clears the two maps and sets the flag: it raises nothing, no transport is
  dropped, no connection object changes, and so every connection reports closed after the
  call exactly when it did before.
\<close>

theorem close_idempotent_and_closes_acquired:
  "(closed s \<longrightarrow> close s = (s, None)) \<and>
   (\<not> closed s \<longrightarrow>
      (case close s of (s1, r1) \<Rightarrow>
         pool s1 = [] \<and> acquired s1 = [] \<and> closed s1 \<and> close s1 = (s1, None) \<and>
         (\<not> loop_closed s \<and> r1 = None \<longrightarrow>
            (\<forall>c \<in> set (concat (map snd (acquired s))). Connection_closed s1 c)))) \<and>
   (\<not> closed s \<and> loop_closed s \<longrightarrow>
      close s = (s\<lparr>pool := [], acquired := [], closed := True\<rparr>, None) \<and>
      transport (fst (close s)) = transport s \<and>
      connections (fst (close s)) = connections s \<and>
      (\<forall>c. Connection_closed (fst (close s)) c = Connection_closed s c))"
proof -
  have "close s = (s\<lparr>pool := [], acquired := [], closed := True\<rparr>, None) \<and>
      transport (fst (close s)) = transport s \<and>
      connections (fst (close s)) = connections s \<and>
      (\<forall>c. Connection_closed (fst (close s)) c = Connection_closed s c)"
    if "\<not> closed s \<and> loop_closed s"
    using that
    by (auto simp: close_def close_body_def Connection_closed_def Protocol_closed_def
        split: option.splits)
  then have n: "\<not> closed s \<and> loop_closed s \<longrightarrow>
      close s = (s\<lparr>pool := [], acquired := [], closed := True\<rparr>, None) \<and>
      transport (fst (close s)) = transport s \<and>
      connections (fst (close s)) = connections s \<and>
      (\<forall>c. Connection_closed (fst (close s)) c = Connection_closed s c)"
    by (rule impI)
  show ?thesis
    by (rule conjI [OF close_open_loop [THEN conjunct1]
          conjI [OF close_open_loop [THEN conjunct2] n]])
qed

theorem close_idempotent_and_closes_acquired_witness:
  "\<not> closed one_connection \<and> \<not> loop_closed one_connection \<and>
   snd (close one_connection) = None \<and>
   0 \<in> set (concat (map snd (acquired one_connection))) \<and>
   Connection_closed (fst (close one_connection)) 0 \<and>
   closed (fst (close one_connection)) \<and>
   close (fst (close one_connection)) = (fst (close one_connection), None) \<and>
   \<not> closed closed_loop_connector \<and> loop_closed closed_loop_connector \<and>
   close closed_loop_connector =
     (closed_loop_connector\<lparr>pool := [], acquired := [], closed := True\<rparr>, None) \<and>
   transport (fst (close closed_loop_connector)) 5"
proof -
  have c: "snd (close one_connection) = None"
    by (simp add: one_connection_def close_def close_body_def Connection_close_def
        Connection_closed_def Protocol_closed_def close_connection_def acquired_remove_def
        Protocol_close_def forget_protocol_def Let_def split: prod.splits)
  have o: "\<not> closed one_connection" "\<not> loop_closed one_connection"
    "0 \<in> set (concat (map snd (acquired one_connection)))"
    by (simp_all add: one_connection_def)
  have l: "\<not> closed closed_loop_connector" "loop_closed closed_loop_connector"
    "transport closed_loop_connector 5"
    by (simp_all add: closed_loop_connector_def one_connection_def)
  show ?thesis
    using close_idempotent_and_closes_acquired [of one_connection]
      close_idempotent_and_closes_acquired [of "fst (close one_connection)"]
      close_idempotent_and_closes_acquired [of closed_loop_connector] c o l
    by (auto split: prod.splits)
qed

section \<open>Properties of the protocol-options decoder\<close>

text \<open>A record for the examples.\<close>

definition example_options :: ProtocolOptions where
  "example_options =
     no_options\<lparr>version := Some rfc7574, swarm_identifier := Some [1, 2, 3],
       chunk_addressing_method := Some chunks32, live_discard_window := Some 42,
       chunk_size := Some 1024\<rparr>"

text \<open>
  Reading back what was written: a value that starts at an offset is read from there, a
  one-byte enumeration value is read back as its member, and each handler of the decoder
  reads exactly the bytes that the handler of the encoder wrote for the same option.
\<close>

lemma decode_value_at:
  "decode_value (pre @ v @ tail) (length pre) (length v) = Inr (v, length pre + length v)"
  by (simp add: decode_value_def)

lemma decode_value_at':
  "length pre = off \<Longrightarrow> length v = len \<Longrightarrow> decode_value (pre @ v @ tail) off len = Inr (v, off + len)"
  using decode_value_at by blast

lemma to_bytes_BYTE:
  "to_bytes BYTE n = Inr v \<Longrightarrow> v = [word_of_int n] \<and> uint (word_of_int n :: byte) = n"
  by (auto simp: to_bytes_def BYTE_def uint_word_of_int take_bit_eq_mod split: if_splits)

lemma to_bytes_WORD:
  "to_bytes WORD n = Inr v \<Longrightarrow> length v = 2 \<and> from_bytes v = n"
proof -
  assume a: "to_bytes WORD n = Inr v"
  then have n: "0 \<le> n" "n < 65536" and v: "v = [word_of_int (n div 256), word_of_int n]"
    by (auto simp: to_bytes_def WORD_def numeral_2_eq_2 split: if_splits)
  have "n div 256 < 256" "0 \<le> n div 256"
    using n by auto
  then have "(n div 256) mod 256 = n div 256"
    by simp
  then have "from_bytes v = n div 256 * 256 + n mod 256"
    by (simp add: v from_bytes_def uint_word_of_int take_bit_eq_mod)
  then show ?thesis
    by (simp add: v)
qed

lemma ProtocolOptionsId_call_byte:
  "ProtocolOptionsId_call (uint (word_of_int (ProtocolOptionsId_value i) :: byte)) = Inr i"
  by (cases i) (simp_all add: ProtocolOptionsId_call_def enum_call_def all_option_ids_def)

lemma decode_byte_at:
  assumes "to_bytes BYTE n = Inr v" and "length pre = off"
  shows "decode_value (pre @ v @ tail) off BYTE = Inr (v, off + length v) \<and> uint (hd v) = n"
proof -
  from to_bytes_BYTE [OF assms(1)] have v: "v = [word_of_int n]"
    and u: "uint (word_of_int n :: byte) = n"
    by simp_all
  have "decode_value (pre @ v @ tail) off BYTE = Inr (v, off + BYTE)"
    by (rule decode_value_at') (simp_all add: assms v BYTE_def)
  then show ?thesis
    by (simp add: v u BYTE_def)
qed

lemma decode_version_at:
  "encode_version x = Inr v \<Longrightarrow> length pre = off \<Longrightarrow>
     decode_version (pre @ v @ tail) off = Inr (x, off + length v)"
  using decode_byte_at [of _ v pre off tail]
  by (simp add: encode_version_def decode_version_def Version_call_value)

lemma decode_minimum_version_at:
  "encode_minimum_version x = Inr v \<Longrightarrow> length pre = off \<Longrightarrow>
     decode_minimum_version (pre @ v @ tail) off = Inr (x, off + length v)"
  using decode_byte_at [of _ v pre off tail]
  by (simp add: encode_minimum_version_def decode_minimum_version_def Version_call_value)

lemma decode_cipm_at:
  "encode_content_integrity_protection_method x = Inr v \<Longrightarrow> length pre = off \<Longrightarrow>
     decode_content_integrity_protection_method (pre @ v @ tail) off = Inr (x, off + length v)"
  using decode_byte_at [of _ v pre off tail]
  by (simp add: encode_content_integrity_protection_method_def decode_content_integrity_protection_method_def CIPM_call_value)

lemma decode_mhtf_at:
  "encode_merkle_hash_tree_function x = Inr v \<Longrightarrow> length pre = off \<Longrightarrow>
     decode_merkle_hash_tree_function (pre @ v @ tail) off = Inr (x, off + length v)"
  using decode_byte_at [of _ v pre off tail]
  by (simp add: encode_merkle_hash_tree_function_def decode_merkle_hash_tree_function_def MHTF_call_value)

lemma decode_lsa_at:
  "encode_live_signature_algorithm x = Inr v \<Longrightarrow> length pre = off \<Longrightarrow>
     decode_live_signature_algorithm (pre @ v @ tail) off = Inr (x, off + length v)"
  using decode_byte_at [of _ v pre off tail]
  by (simp add: encode_live_signature_algorithm_def decode_live_signature_algorithm_def LSA_call_value)

lemma decode_cam_at:
  "encode_chunk_addressing_method x = Inr v \<Longrightarrow> length pre = off \<Longrightarrow>
     decode_chunk_addressing_method (pre @ v @ tail) off = Inr (x, off + length v)"
  using decode_byte_at [of _ v pre off tail]
  by (simp add: encode_chunk_addressing_method_def decode_chunk_addressing_method_def CAM_call_value)

lemma decode_swarm_id_at:
  assumes "encode_swarm_id x = Inr v" and "length pre = off"
  shows "decode_swarm_id (pre @ v @ tail) off = Inr (x, off + length v)"
proof -
  from assms(1) obtain l where l: "to_bytes WORD (int (length x)) = Inr l" and v: "v = l @ x"
    by (auto simp: encode_swarm_id_def split: sum.splits)
  from to_bytes_WORD [OF l] have ll: "length l = WORD" and f: "from_bytes l = int (length x)"
    by (simp_all add: WORD_def)
  have 1: "decode_value (pre @ l @ (x @ tail)) off WORD = Inr (l, off + WORD)"
    by (rule decode_value_at') (simp_all add: assms ll)
  have 2: "decode_value ((pre @ l) @ x @ tail) (off + WORD) (length x) = Inr (x, off + WORD + length x)"
    by (rule decode_value_at') (simp_all add: assms ll)
  show ?thesis
    using 1 2 by (simp add: decode_swarm_id_def v f ll)
qed

lemma decode_live_discard_window_at:
  assumes "encode_live_discard_window x p = Inr (Some v)" and "length pre = off"
    and "chunk_addressing_method opts = chunk_addressing_method p"
  shows "\<exists>y. decode_live_discard_window (pre @ v @ tail) off opts = Inr (y, off + length v)"
proof -
  from assms(1) obtain m where m: "chunk_addressing_method p = Some m"
    and t: "to_bytes (LiveDiscardWindowSize m) x = Inr v"
    by (auto simp: encode_live_discard_window_def split: option.splits sum.splits)
  from to_bytes_length [OF t] have "length v = LiveDiscardWindowSize m" .
  then have "decode_value (pre @ v @ tail) off (LiveDiscardWindowSize m) =
      Inr (v, off + LiveDiscardWindowSize m)"
    using assms(2) by (intro decode_value_at') simp_all
  then show ?thesis
    by (simp add: decode_live_discard_window_def assms(3) m \<open>length v = LiveDiscardWindowSize m\<close>)
qed

lemma decode_supported_messages_at:
  assumes "encode_supported_messages x = Inr v" and "length pre = off"
  shows "\<exists>y. decode_supported_messages (pre @ v @ tail) off = Inr (y, off + length v)"
proof -
  from encode_supported_messages_shape [of x] assms(1) obtain a b where v: "v = [2, a, b]"
    by auto
  have 1: "decode_value (pre @ [2] @ (a # b # tail)) off BYTE = Inr ([2], off + BYTE)"
    by (rule decode_value_at') (simp_all add: assms BYTE_def)
  have 2: "decode_value ((pre @ [2]) @ [a] @ (b # tail)) (off + 1) BYTE = Inr ([a], off + 1 + BYTE)"
    by (rule decode_value_at') (simp_all add: assms BYTE_def)
  have 3: "decode_value ((pre @ [2, a]) @ [b] @ tail) (off + 2) BYTE = Inr ([b], off + 2 + BYTE)"
    by (rule decode_value_at') (simp_all add: assms BYTE_def)
  have u: "[0 ..< nat (from_bytes [2])] = [0, 1]"
    by (simp add: from_bytes_def upt_rec)
  show ?thesis
    using 1 2 3 by (simp add: decode_supported_messages_def v u BYTE_def)
qed

lemma decode_chunk_size_at:
  assumes "encode_chunk_size x = Inr v" and "length pre = off"
  shows "\<exists>y. decode_chunk_size (pre @ v @ tail) off = Inr (y, off + length v)"
proof -
  from assms(1) have "length v = DWORD"
    by (auto simp: encode_chunk_size_def dest: to_bytes_length)
  then have "decode_value (pre @ v @ tail) off DWORD = Inr (v, off + DWORD)"
    using assms(2) by (intro decode_value_at') simp_all
  then show ?thesis
    by (simp add: decode_chunk_size_def \<open>length v = DWORD\<close>)
qed

lemma returns_bytes_Some: "returns_bytes r = Inr (Some v) \<longleftrightarrow> r = Inr v"
  by (auto simp: returns_bytes_def split: sum.splits)

lemma returns_bytes_not_None: "returns_bytes r \<noteq> Inr None"
  by (auto simp: returns_bytes_def split: sum.splits)

lemma handler_step:
  assumes e: "encode_handlers i p = Some (Inr (Some v))"
    and cam: "i = Id_live_discard_window \<Longrightarrow>
      chunk_addressing_method opts = chunk_addressing_method p"
    and off: "length pre = off"
  shows "\<exists>opts'. decode_handlers i (pre @ v @ tail) off opts = Inr (opts', off + length v) \<and>
     (\<forall>j. j \<noteq> i \<longrightarrow> option_is_set j opts' = option_is_set j opts) \<and>
     chunk_addressing_method opts' =
       (if i = Id_chunk_addressing_method then chunk_addressing_method p
        else chunk_addressing_method opts)"
proof (cases i)
  case Id_version
  with e obtain x where x: "version p = Some x" "encode_version x = Inr v"
    by (auto simp: returns_bytes_Some)
  have "\<forall>j. j \<noteq> i \<longrightarrow> option_is_set j (opts\<lparr>version := Some x\<rparr>) = option_is_set j opts"
    unfolding Id_version by (rule allI, case_tac j) simp_all
  then show ?thesis
    using decode_version_at [OF x(2) off, of tail] Id_version by (simp add: store_def)
next
  case Id_minimum_version
  with e obtain x where x: "minimum_version p = Some x" "encode_minimum_version x = Inr v"
    by (auto simp: returns_bytes_Some)
  have "\<forall>j. j \<noteq> i \<longrightarrow> option_is_set j (opts\<lparr>minimum_version := Some x\<rparr>) = option_is_set j opts"
    unfolding Id_minimum_version by (rule allI, case_tac j) simp_all
  then show ?thesis
    using decode_minimum_version_at [OF x(2) off, of tail] Id_minimum_version
    by (simp add: store_def)
next
  case Id_swarm_identifier
  with e obtain x where x: "swarm_identifier p = Some x" "encode_swarm_id x = Inr v"
    by (auto simp: returns_bytes_Some)
  have "\<forall>j. j \<noteq> i \<longrightarrow> option_is_set j (opts\<lparr>swarm_identifier := Some x\<rparr>) = option_is_set j opts"
    unfolding Id_swarm_identifier by (rule allI, case_tac j) simp_all
  then show ?thesis
    using decode_swarm_id_at [OF x(2) off, of tail] Id_swarm_identifier
    by (simp add: store_def)
next
  case Id_content_integrity_protection_method
  with e obtain x where x: "content_integrity_protection_method p = Some x"
      "encode_content_integrity_protection_method x = Inr v"
    by (auto simp: returns_bytes_Some)
  have "\<forall>j. j \<noteq> i \<longrightarrow>
      option_is_set j (opts\<lparr>content_integrity_protection_method := Some x\<rparr>) = option_is_set j opts"
    unfolding Id_content_integrity_protection_method by (rule allI, case_tac j) simp_all
  then show ?thesis
    using decode_cipm_at [OF x(2) off, of tail] Id_content_integrity_protection_method
    by (simp add: store_def)
next
  case Id_merkle_hash_tree_function
  with e obtain x where x: "merkle_hash_tree_function p = Some x"
      "encode_merkle_hash_tree_function x = Inr v"
    by (auto simp: returns_bytes_Some)
  have "\<forall>j. j \<noteq> i \<longrightarrow>
      option_is_set j (opts\<lparr>merkle_hash_tree_function := Some x\<rparr>) = option_is_set j opts"
    unfolding Id_merkle_hash_tree_function by (rule allI, case_tac j) simp_all
  then show ?thesis
    using decode_mhtf_at [OF x(2) off, of tail] Id_merkle_hash_tree_function
    by (simp add: store_def)
next
  case Id_live_signature_algorithm
  with e obtain x where x: "live_signature_algorithm p = Some x"
      "encode_live_signature_algorithm x = Inr v"
    by (auto simp: returns_bytes_Some)
  have "\<forall>j. j \<noteq> i \<longrightarrow>
      option_is_set j (opts\<lparr>live_signature_algorithm := Some x\<rparr>) = option_is_set j opts"
    unfolding Id_live_signature_algorithm by (rule allI, case_tac j) simp_all
  then show ?thesis
    using decode_lsa_at [OF x(2) off, of tail] Id_live_signature_algorithm
    by (simp add: store_def)
next
  case Id_chunk_addressing_method
  with e obtain x where x: "chunk_addressing_method p = Some x"
      "encode_chunk_addressing_method x = Inr v"
    by (auto simp: returns_bytes_Some)
  have "\<forall>j. j \<noteq> i \<longrightarrow>
      option_is_set j (opts\<lparr>chunk_addressing_method := Some x\<rparr>) = option_is_set j opts"
    unfolding Id_chunk_addressing_method by (rule allI, case_tac j) simp_all
  then show ?thesis
    using decode_cam_at [OF x(2) off, of tail] Id_chunk_addressing_method x(1)
    by (simp add: store_def)
next
  case Id_live_discard_window
  with e obtain x where x: "live_discard_window p = Some x"
      "encode_live_discard_window x p = Inr (Some v)"
    by auto
  from decode_live_discard_window_at [OF x(2) off cam [OF Id_live_discard_window], of tail]
  obtain y where y: "decode_live_discard_window (pre @ v @ tail) off opts = Inr (y, off + length v)"
    by blast
  have "\<forall>j. j \<noteq> i \<longrightarrow>
      option_is_set j (opts\<lparr>live_discard_window := Some y\<rparr>) = option_is_set j opts"
    unfolding Id_live_discard_window by (rule allI, case_tac j) simp_all
  then show ?thesis
    using y Id_live_discard_window by (simp add: store_def)
next
  case Id_supported_messages
  with e obtain x where x: "supported_messages p = Some x"
      "encode_supported_messages x = Inr v"
    by (auto simp: returns_bytes_Some)
  from decode_supported_messages_at [OF x(2) off, of tail]
  obtain y where y: "decode_supported_messages (pre @ v @ tail) off = Inr (y, off + length v)"
    by blast
  have "\<forall>j. j \<noteq> i \<longrightarrow>
      option_is_set j (opts\<lparr>supported_messages := Some y\<rparr>) = option_is_set j opts"
    unfolding Id_supported_messages by (rule allI, case_tac j) simp_all
  then show ?thesis
    using y Id_supported_messages by (simp add: store_def)
next
  case Id_chunk_size
  with e obtain x where x: "chunk_size p = Some x" "encode_chunk_size x = Inr v"
    by (auto simp: returns_bytes_Some)
  from decode_chunk_size_at [OF x(2) off, of tail]
  obtain y where y: "decode_chunk_size (pre @ v @ tail) off = Inr (y, off + length v)"
    by blast
  have "\<forall>j. j \<noteq> i \<longrightarrow>
      option_is_set j (opts\<lparr>chunk_size := Some y\<rparr>) = option_is_set j opts"
    unfolding Id_chunk_size by (rule allI, case_tac j) simp_all
  then show ?thesis
    using y Id_chunk_size by (simp add: store_def)
next
  case Id_end_option
  with e show ?thesis by simp
qed

lemma encode_loop_prefix:
  "encode_loop ids p acc = Inr out \<Longrightarrow> \<exists>rest. out = acc @ rest"
proof (induction ids arbitrary: acc)
  case Nil
  then show ?case by simp
next
  case (Cons i ids)
  then show ?case
    by (fastforce split: option.splits sum.splits)
qed

lemma encode_handlers_cam_None:
  "encode_handlers Id_chunk_addressing_method p = None \<or>
   encode_handlers Id_chunk_addressing_method p = Some (Inr None) \<Longrightarrow>
   chunk_addressing_method p = None"
  by (auto simp: returns_bytes_not_None)

lemma ProtocolOptions_new_as_args: "ProtocolOptions_new (as_args p) = Inr p"
  by (cases p)
     (simp add: ProtocolOptions_new_def as_args_def as_arg_def bind_err_def split: option.splits)

lemma decode_loop_end:
  "decode_loop (out @ 0xFF # s) (length out) opts = Inr (opts, length out + 1)"
proof -
  have "decode_value (out @ [0xFF] @ s) (length out) BYTE = Inr ([0xFF], length out + BYTE)"
    by (rule decode_value_at') (simp_all add: BYTE_def)
  moreover have "ProtocolOptionsId_call (uint (0xFF :: byte)) = Inr Id_end_option"
    by (simp add: ProtocolOptionsId_call_def enum_call_def all_option_ids_def)
  ultimately show ?thesis
    by (subst decode_loop.simps) (simp add: BYTE_def)
qed

lemma encode_loop_decodes:
  assumes "encode_loop ids p acc = Inr out"
    and "sorted_wrt (\<lambda>a b. ProtocolOptionsId_value a < ProtocolOptionsId_value b) ids"
    and "Id_end_option \<notin> set ids"
    and "\<forall>i \<in> set ids. \<not> option_is_set i opts"
    and "Id_chunk_addressing_method \<notin> set ids \<longrightarrow>
      chunk_addressing_method opts = chunk_addressing_method p"
  shows "\<exists>opts'. decode_loop (out @ 0xFF # s) (length acc) opts = Inr (opts', length out + 1)"
  using assms
proof (induction ids arbitrary: acc opts)
  case Nil
  then show ?case
    by (simp add: decode_loop_end)
next
  case (Cons i ids)
  from Cons.prems(2) have sorted: "sorted_wrt (\<lambda>a b. ProtocolOptionsId_value a < ProtocolOptionsId_value b) ids"
    and less: "\<forall>j \<in> set ids. ProtocolOptionsId_value i < ProtocolOptionsId_value j"
    by simp_all
  from less have notin: "i \<notin> set ids"
    by auto
  from Cons.prems(3) have noend: "Id_end_option \<notin> set ids" and i_end: "i \<noteq> Id_end_option"
    by auto
  from Cons.prems(4) have unset: "\<forall>j \<in> set ids. \<not> option_is_set j opts"
    and i_unset: "\<not> option_is_set i opts"
    by simp_all
  consider (skip) "encode_handlers i p = None \<or> encode_handlers i p = Some (Inr None)"
    | (emit) v where "encode_handlers i p = Some (Inr (Some v))"
    | (fail) e where "encode_handlers i p = Some (Inl e)"
    by (cases "encode_handlers i p") (auto split: sum.splits option.splits, metis sum.exhaust option.exhaust)
  then show ?case
  proof cases
    case skip
    then have rest: "encode_loop ids p acc = Inr out"
      using Cons.prems(1) by auto
    have "Id_chunk_addressing_method \<notin> set ids \<longrightarrow>
        chunk_addressing_method opts = chunk_addressing_method p"
    proof (cases "i = Id_chunk_addressing_method")
      case True
      with skip encode_handlers_cam_None have "chunk_addressing_method p = None"
        by blast
      moreover from i_unset True have "chunk_addressing_method opts = None"
        by simp
      ultimately show ?thesis by simp
    next
      case False
      with Cons.prems(5) show ?thesis by simp
    qed
    from Cons.IH [OF rest sorted noend unset this] show ?thesis .
  next
    case (emit v)
    define c :: byte where "c = word_of_int (ProtocolOptionsId_value i)"
    from emit Cons.prems(1) have rest: "encode_loop ids p (acc @ [c] @ v) = Inr out"
      by (simp add: c_def)
    from encode_loop_prefix [OF rest] obtain r where out: "out = acc @ [c] @ v @ r"
      by auto
    define data where "data = out @ 0xFF # s"
    have data: "data = (acc @ [c]) @ v @ (r @ 0xFF # s)"
      by (simp add: data_def out)
    have camdone: "chunk_addressing_method opts = chunk_addressing_method p"
      if "i = Id_live_discard_window"
    proof -
      from less that have "Id_chunk_addressing_method \<notin> set ids"
        by fastforce
      with that Cons.prems(5) show ?thesis by simp
    qed
    from handler_step [OF emit camdone, of "acc @ [c]" "length acc + 1" "r @ 0xFF # s"]
    obtain opts' where h: "decode_handlers i data (length acc + 1) opts =
        Inr (opts', length acc + 1 + length v)"
      and same: "\<forall>j. j \<noteq> i \<longrightarrow> option_is_set j opts' = option_is_set j opts"
      and cam': "chunk_addressing_method opts' =
        (if i = Id_chunk_addressing_method then chunk_addressing_method p
         else chunk_addressing_method opts)"
      by (auto simp: data)
    have unset': "\<forall>j \<in> set ids. \<not> option_is_set j opts'"
      using unset same notin by auto
    have cam'': "Id_chunk_addressing_method \<notin> set ids \<longrightarrow>
        chunk_addressing_method opts' = chunk_addressing_method p"
      using cam' Cons.prems(5) by auto
    from Cons.IH [OF rest sorted noend unset' cam'']
    obtain opts'' where
      fin: "decode_loop data (length (acc @ [c] @ v)) opts' = Inr (opts'', length out + 1)"
      by (auto simp: data_def)
    have rd: "decode_value data (length acc) BYTE = Inr ([c], length acc + BYTE)"
      unfolding data_def out
      using decode_value_at' [of acc "length acc" "[c]" BYTE "v @ r @ 0xFF # s"]
      by (simp add: BYTE_def)
    have idc: "ProtocolOptionsId_call (uint c) = Inr i"
      by (simp add: c_def ProtocolOptionsId_call_byte)
    have "decode_loop data (length acc) opts = Inr (opts'', length out + 1)"
      using rd idc i_end i_unset h fin
      by (subst decode_loop.simps) (simp add: BYTE_def)
    then show ?thesis
      by (auto simp: data_def)
  next
    case (fail e)
    with Cons.prems(1) show ?thesis by simp
  qed
qed

text \<open>
  C9. For every record that is encoded without an exception and every suffix \<open>s\<close>: the
  encoding ends with the terminator \<open>0xFF\<close>, the loop of the decoder run on the encoding
  followed by \<open>s\<close> stops at the offset just after that terminator, and \<open>decode\<close>
  returns a record together with \<open>s\<close>, unchanged, as the remaining data.
\<close>

theorem decode_returns_suffix:
  assumes "protocol_options_encode p = Inr enc"
  shows "enc \<noteq> [] \<and> last enc = 0xFF \<and>
     (\<exists>p'. decode_loop (enc @ s) 0 no_options = Inr (p', length enc) \<and>
        protocol_options_decode (enc @ s) = Inr (p', s))"
proof -
  from assms obtain out where out: "encode_loop zipped_option_ids p [] = Inr out"
    and enc: "enc = out @ [0xFF]"
    by (auto simp: protocol_options_encode_def split: sum.splits)
  have "\<exists>opts'. decode_loop (out @ 0xFF # s) (length ([] :: bytes)) no_options =
      Inr (opts', length out + 1)"
    by (rule encode_loop_decodes [OF out])
       (simp_all add: zipped_option_ids_def all_option_ids_def no_options_def)
  then obtain p' where "decode_loop (enc @ s) 0 no_options = Inr (p', length enc)"
    by (auto simp: enc)
  then show ?thesis
    by (auto simp: protocol_options_decode_def ProtocolOptions_new_as_args enc)
qed

theorem decode_returns_suffix_witness:
  "protocol_options_encode example_options =
     Inr [0, 1, 2, 0, 3, 1, 2, 3, 6, 2, 7, 0, 0, 0, 42, 9, 0, 0, 4, 0, 0xFF] \<and>
   protocol_options_decode
     ([0, 1, 2, 0, 3, 1, 2, 3, 6, 2, 7, 0, 0, 0, 42, 9, 0, 0, 4, 0, 0xFF] @ [9, 9]) =
     Inr (example_options, [9, 9])"
proof -
  have e: "protocol_options_encode example_options =
     Inr [0, 1, 2, 0, 3, 1, 2, 3, 6, 2, 7, 0, 0, 0, 42, 9, 0, 0, 4, 0, 0xFF]"
    by code_simp
  have d: "protocol_options_decode
     ([0, 1, 2, 0, 3, 1, 2, 3, 6, 2, 7, 0, 0, 0, 42, 9, 0, 0, 4, 0, 0xFF] @ [9, 9]) =
     Inr (example_options, [9, 9])"
    by code_simp
  show ?thesis
    using decode_returns_suffix [OF e, of "[9, 9]"] e d by simp
qed

text \<open>
  The invariant of the decoder's dictionary: a live discard window is only ever stored
  after a chunk addressing method.
\<close>

definition ldw_needs_cam :: "ProtocolOptions \<Rightarrow> bool" where
  "ldw_needs_cam opts =
     (live_discard_window opts \<noteq> None \<longrightarrow> chunk_addressing_method opts \<noteq> None)"

text \<open>
  A read that ends inside a prefix of the data does not depend on what follows the prefix,
  and so for the handlers and for the rounds of the loop that stay inside the prefix.
\<close>

lemma decode_value_prefix:
  assumes "decode_value (pre @ a) off len = Inr (v, off')" and "off' \<le> length pre"
  shows "decode_value (pre @ b) off len = Inr (v, off')"
proof -
  from assms have o: "off' = off + len" and l: "off + len \<le> length pre"
    by (auto simp: decode_value_def Let_def split: if_splits)
  then have ea: "take len (drop off (pre @ a)) = take len (drop off pre)"
    and eb: "take len (drop off (pre @ b)) = take len (drop off pre)"
    by simp_all
  show ?thesis
    using assms(1) unfolding decode_value_def Let_def ea eb .
qed

lemma supported_messages_loop_prefix:
  "supported_messages_loop (pre @ a) ns off acc = Inr (r, off') \<Longrightarrow> off' \<le> length pre \<Longrightarrow>
     supported_messages_loop (pre @ b) ns off acc = Inr (r, off')"
proof (induction ns arbitrary: off acc)
  case Nil
  then show ?case by simp
next
  case (Cons n ns)
  from Cons.prems(1) obtain v off1 where
    1: "decode_value (pre @ a) off BYTE = Inr (v, off1)"
    and 2: "supported_messages_loop (pre @ a) ns off1 (acc \<union> byte_message_types n (from_bytes v)) = Inr (r, off')"
    by (auto split: sum.splits)
  from supported_messages_loop_offset [OF 2] Cons.prems(2) have "off1 \<le> length pre"
    by simp
  from decode_value_prefix [OF 1 this, of b] Cons.IH [OF 2 Cons.prems(2)] show ?case
    by simp
qed

lemma decode_handlers_prefix:
  assumes "decode_handlers i (pre @ a) off opts = Inr (opts', off')" and "off' \<le> length pre"
  shows "decode_handlers i (pre @ b) off opts = Inr (opts', off')"
proof (cases i)
  case Id_swarm_identifier
  with assms(1) obtain l off1 where
    1: "decode_value (pre @ a) off WORD = Inr (l, off1)"
    and 2: "decode_value (pre @ a) off1 (nat (from_bytes l)) = Inr (the (swarm_identifier opts'), off')"
    and o: "opts' = opts\<lparr>swarm_identifier := Some (the (swarm_identifier opts'))\<rparr>"
    by (auto simp: store_def decode_swarm_id_def split: sum.splits)
  from decode_value_offset [OF 2] assms(2) have "off1 \<le> length pre"
    by simp
  from decode_value_prefix [OF 1 this, of b] decode_value_prefix [OF 2 assms(2), of b] o
  show ?thesis
    by (simp add: Id_swarm_identifier store_def decode_swarm_id_def)
next
  case Id_supported_messages
  with assms(1) obtain l off1 r where
    1: "decode_value (pre @ a) off BYTE = Inr (l, off1)"
    and 2: "supported_messages_loop (pre @ a) [0 ..< nat (from_bytes l)] off1 {} = Inr (r, off')"
    and o: "opts' = opts\<lparr>supported_messages := Some r\<rparr>"
    by (auto simp: store_def decode_supported_messages_def split: sum.splits)
  from supported_messages_loop_offset [OF 2] assms(2) have "off1 \<le> length pre"
    by simp
  from decode_value_prefix [OF 1 this, of b] supported_messages_loop_prefix [OF 2 assms(2), of b] o
  show ?thesis
    by (simp add: Id_supported_messages store_def decode_supported_messages_def)
qed (use assms in \<open>auto simp: store_def decode_version_def decode_minimum_version_def
        decode_content_integrity_protection_method_def decode_merkle_hash_tree_function_def
        decode_live_signature_algorithm_def decode_chunk_addressing_method_def
        decode_live_discard_window_def decode_chunk_size_def
        split: sum.splits option.splits dest: decode_value_prefix [where b = b]\<close>)

lemma decode_handlers_ldw_needs_cam:
  "decode_handlers i data off opts = Inr (opts', off') \<Longrightarrow> ldw_needs_cam opts \<Longrightarrow>
     ldw_needs_cam opts'"
  by (cases i) (auto simp: store_def ldw_needs_cam_def decode_live_discard_window_def
      split: sum.splits option.splits)

lemma decode_loop_in_data:
  "decode_loop data off opts = Inr (opts', off') \<Longrightarrow> off < length data"
  by (subst (asm) decode_loop.simps)
     (auto simp: BYTE_def split: sum.splits dest!: decode_value_offset)

lemma decode_loop_prefix:
  assumes "decode_loop (pre @ [0xFF]) off opts = Inr (opts', length pre + 1)"
    and "ldw_needs_cam opts"
  shows "decode_loop (pre @ t) off opts = decode_loop (pre @ t) (length pre) opts' \<and>
     ldw_needs_cam opts'"
  using assms
proof (induction "pre @ [0xFF :: byte]" off opts rule: decode_loop.induct)
  case (1 off opts)
  let ?d = "pre @ [0xFF :: byte]"
  from "1.prems"(1) obtain b off1 i where
    rd: "decode_value ?d off BYTE = Inr (b, off1)"
    and call: "ProtocolOptionsId_call (uint (hd b)) = Inr i"
    by (subst (asm) decode_loop.simps) (auto split: sum.splits)
  from decode_value_offset [OF rd] have off1: "off1 = off + 1" and inside: "off + 1 \<le> length pre + 1"
    by (simp_all add: BYTE_def)
  show ?case
  proof (cases "i = Id_end_option")
    case True
    with "1.prems"(1) rd call have "opts' = opts" "off = length pre"
      by (subst (asm) decode_loop.simps, simp add: off1)+
    with "1.prems"(2) show ?thesis by simp
  next
    case False
    with "1.prems"(1) rd call obtain opts1 off2 where
      unset: "\<not> option_is_set i opts"
      and h: "decode_handlers i ?d off1 opts = Inr (opts1, off2)"
      and rec: "decode_loop ?d off2 opts1 = Inr (opts', length pre + 1)"
      by (subst (asm) decode_loop.simps) (auto split: sum.splits if_splits)
    from decode_loop_in_data [OF rec] have off2: "off2 \<le> length pre"
      by simp
    from decode_handlers_offset [OF h] off2 have "off1 \<le> length pre"
      by simp
    from decode_value_prefix [OF rd this, of t] have rd': "decode_value (pre @ t) off BYTE = Inr (b, off1)" .
    note h' = decode_handlers_prefix [OF h off2, of t]
    note inv1 = decode_handlers_ldw_needs_cam [OF h "1.prems"(2)]
    from "1.hyps" [OF rd refl call False unset h refl rec inv1]
    have "decode_loop (pre @ t) off2 opts1 = decode_loop (pre @ t) (length pre) opts' \<and>
       ldw_needs_cam opts'" .
    moreover have "decode_loop (pre @ t) off opts = decode_loop (pre @ t) off2 opts1"
      using rd' call False unset h'
      by (subst decode_loop.simps) simp
    ultimately show ?thesis by simp
  qed
qed

text \<open>
  Of all the handlers only that of the live discard window raises \<open>AttributeError\<close>, and
  only when no chunk addressing method was decoded: the exception identifies the order
  violation.
\<close>

lemma enum_call_error: "enum_call val ms n = Inl e \<Longrightarrow> e = ValueError"
  by (auto simp: enum_call_def split: option.splits)

lemma decode_value_error: "decode_value data off len = Inl e \<Longrightarrow> e = ValueError"
  by (auto simp: decode_value_def Let_def split: if_splits)

lemma supported_messages_loop_error:
  "supported_messages_loop data ns off acc = Inl e \<Longrightarrow> e = ValueError"
  by (induction ns arbitrary: off acc) (auto split: sum.splits dest: decode_value_error)

lemma decode_handlers_AttributeError:
  "decode_handlers i data off opts = Inl AttributeError \<Longrightarrow>
     i = Id_live_discard_window \<and> chunk_addressing_method opts = None"
  by (cases i)
     (auto simp: store_def decode_version_def decode_minimum_version_def decode_swarm_id_def
        decode_content_integrity_protection_method_def decode_merkle_hash_tree_function_def
        decode_live_signature_algorithm_def decode_chunk_addressing_method_def
        decode_live_discard_window_def decode_supported_messages_def decode_chunk_size_def
        Version_call_def CIPM_call_def MHTF_call_def LSA_call_def CAM_call_def
        split: sum.splits option.splits
        dest: decode_value_error enum_call_error supported_messages_loop_error)

text \<open>
  C5. Let \<open>pre\<close> be a run of options that is well formed (followed by the terminator it
  decodes, to the last byte) and holds no chunk addressing method (option code 6). Then
  decoding \<open>pre\<close> followed by option code 7 and any bytes fails, and with the exception
  of the order violation: the \<open>AttributeError\<close> that \<open>decode_live_discard_window\<close>
  raises when it asks for the name of a method that is \<open>None\<close>.
\<close>

theorem decode_live_discard_window_without_cam:
  assumes "decode_loop (pre @ [0xFF]) 0 no_options = Inr (opts, length pre + 1)"
    and "chunk_addressing_method opts = None"
  shows "protocol_options_decode (pre @ 7 # rest) = Inl AttributeError"
proof -
  have "ldw_needs_cam no_options"
    by (simp add: ldw_needs_cam_def no_options_def)
  from decode_loop_prefix [OF assms(1) this, of "7 # rest"]
  have e: "decode_loop (pre @ 7 # rest) 0 no_options = decode_loop (pre @ 7 # rest) (length pre) opts"
    and "ldw_needs_cam opts"
    by simp_all
  with assms(2) have unset: "\<not> option_is_set Id_live_discard_window opts"
    by (simp add: ldw_needs_cam_def)
  have rd: "decode_value (pre @ [7] @ rest) (length pre) BYTE = Inr ([7], length pre + BYTE)"
    by (rule decode_value_at') (simp_all add: BYTE_def)
  have call: "ProtocolOptionsId_call (uint (7 :: byte)) = Inr Id_live_discard_window"
    by (simp add: ProtocolOptionsId_call_def enum_call_def all_option_ids_def)
  have "decode_loop (pre @ 7 # rest) (length pre) opts = Inl AttributeError"
    using rd call unset assms(2)
    by (subst decode_loop.simps) (simp add: store_def decode_live_discard_window_def)
  with e show ?thesis
    by (simp add: protocol_options_decode_def)
qed

theorem decode_live_discard_window_without_cam_witness:
  "decode_loop ([0, 1] @ [0xFF]) 0 no_options =
     Inr (no_options\<lparr>version := Some rfc7574\<rparr>, length [0, 1 :: byte] + 1) \<and>
   chunk_addressing_method (no_options\<lparr>version := Some rfc7574\<rparr>) = None \<and>
   protocol_options_decode ([0, 1] @ 7 # [0, 0, 0, 42, 0xFF]) = Inl AttributeError"
proof -
  have d: "decode_loop ([0, 1] @ [0xFF]) 0 no_options =
     Inr (no_options\<lparr>version := Some rfc7574\<rparr>, length [0, 1 :: byte] + 1)"
    by code_simp
  have c: "chunk_addressing_method (no_options\<lparr>version := Some rfc7574\<rparr>) = None"
    by (simp add: no_options_def)
  from decode_live_discard_window_without_cam [OF d c, of "[0, 0, 0, 42, 0xFF]"] d c show ?thesis
    by simp
qed

end
